theory Spec2Isabelle
  imports
    Main
    "HOL-Library.AList"
    "HOL-Library.Char_ord"
    "HOL-Library.List_Lexorder"
    "HOL-Library.Multiset"
begin

section \<open>The world of the script: files, diagnostics, library calls\<close>

text \<open>
  The script \<^verbatim>\<open>popscle_dsc_pileup_merge_splitted.py\<close> reads shard files found by a glob,
  and writes four merged files. Its own logic is embedded function by function below;
  what it calls from libraries (polars' CSV reader and writer, gzip) is either modelled by a
  small definition that says which documented behaviour it stands for, or, for the file
  formats themselves, taken as a parameter (the record \<open>lib\<close>), so that every theorem holds
  for any CSV and gzip codec.

  A file holds bytes; a path is a string. The file system is a flat association list from
  paths to contents. What the script prints to the standard error stream is kept, message
  by message; the traceback of an uncaught exception is not.

  The model keeps to the documented format of the tables: a row carries the columns of the
  \<^verbatim>\<open>dtypes\<close>, every cell is a present value, and a frame has fewer rows than the 32-bit row
  index can count. The SNP and UMI merges open their destination before they list their
  shards, so a destination that the shard pattern matches is listed as a shard and read
  while it is written. In the model the data written reaches the file when it is closed:
  an open destination is read as a file of no bytes. What a reader finds in it once the
  writer has flushed part of its data is not modelled, and the general statements about the
  two merges are for a destination that the shard pattern does not match.
\<close>

type_synonym path = string
type_synonym bytes = string

datatype error =
    ValueError string
  | IndexError string
  | AssertionError string
  | FileNotFoundError path
  | LibraryError string

record world =
  files :: "(path \<times> bytes) list"
  stderr :: "string list"

text \<open>\<^verbatim>\<open>os.path.exists\<close>.\<close>

definition path_exists :: "world \<Rightarrow> path \<Rightarrow> bool" where
  "path_exists w p = (map_of (files w) p \<noteq> None)"

text \<open>\<^verbatim>\<open>print(..., file=sys.stderr)\<close>: one entry per call.\<close>

definition eprint :: "string \<Rightarrow> world \<Rightarrow> world" where
  "eprint msg w = w\<lparr>stderr := stderr w @ [msg]\<rparr>"

definition write_file :: "path \<Rightarrow> bytes \<Rightarrow> world \<Rightarrow> world" where
  "write_file p b w = w\<lparr>files := AList.update p b (files w)\<rparr>"

definition read_file :: "world \<Rightarrow> path \<Rightarrow> error + bytes" where
  "read_file w p = (case map_of (files w) p of None \<Rightarrow> Inl (FileNotFoundError p) | Some b \<Rightarrow> Inr b)"

text \<open>
  \<^verbatim>\<open>glob.glob(pre + "*" + suf)\<close> for a \<open>pre\<close> without glob metacharacters: the paths that
  start with \<open>pre\<close>, end with \<open>suf\<close>, and have no directory separator in the part the star
  stands for. The script sorts every glob result, so the order here does not matter.
\<close>

definition glob_match :: "string \<Rightarrow> string \<Rightarrow> path \<Rightarrow> bool" where
  "glob_match pre suf p \<longleftrightarrow>
     length pre + length suf \<le> length p \<and>
     take (length pre) p = pre \<and>
     drop (length p - length suf) p = suf \<and>
     CHR ''/'' \<notin> set (drop (length pre) (take (length p - length suf) p))"

definition glob :: "world \<Rightarrow> string \<Rightarrow> string \<Rightarrow> path list" where
  "glob w pre suf = filter (glob_match pre suf) (remdups (map fst (files w)))"

text \<open>\<^verbatim>\<open>sorted(glob.glob(f"{prefix}.*{suffix}"))\<close>: Python sorts strings lexicographically.\<close>

definition sorted_glob :: "world \<Rightarrow> string \<Rightarrow> string \<Rightarrow> path list" where
  "sorted_glob w prefix suf = sort (glob w (prefix @ ''.'') suf)"

text \<open>The double quote, tab, and the three kinds of diagnostic the script prints.\<close>

definition dq :: string where
  "dq = [CHR 0x22]"

definition tab :: char where
  "tab = CHR 0x09"

definition msg_exists :: "string \<Rightarrow> path \<Rightarrow> string" where
  "msg_exists kind p =
     ''Error: popscle pileup '' @ kind @ '' full file '' @ dq @ p @ dq @ '' already exists.''"

definition msg_reading :: "string \<Rightarrow> path \<Rightarrow> string" where
  "msg_reading kind p =
     ''Reading partial popscle pileup '' @ kind @ '' file '' @ dq @ p @ dq @ '' ...''"

definition msg_writing :: "string \<Rightarrow> path \<Rightarrow> string" where
  "msg_writing kind p =
     ''Writing popscle pileup '' @ kind @ '' full file '' @ dq @ p @ dq @ '' ...''"

subsection \<open>Tables\<close>

text \<open>
  A data frame is the list of its rows. Rows of the tab-separated files carry the columns
  of the \<^verbatim>\<open>dtypes\<close> given to \<^verbatim>\<open>read_csv\<close>; \<open>Int64\<close> cells are integers (no arithmetic is
  done on them), cells are present values.
\<close>

record cel_tsv_row =
  tsv_DROPLET_ID :: int
  tsv_BARCODE :: string
  tsv_NUM_READ :: int
  tsv_NUM_UMI :: int
  tsv_NUM_UMIwSNP :: int
  tsv_NUM_SNP :: int

text \<open>Rows of \<^verbatim>\<open>popscle_pileup_cel_df\<close>: the shard's columns, \<open>PARTITION\<close>, and the row count.\<close>

record cel_part_row =
  DROPLET_ID_PARTITIONED :: int
  BARCODE :: string
  NUM_READ :: int
  NUM_UMI :: int
  NUM_UMIwSNP :: int
  NUM_SNP :: int
  PARTITION :: nat

record cel_df_row = cel_part_row +
  DROPLET_ID :: nat

record plp_tsv_row =
  plp_DROPLET_ID :: int
  SNP_ID :: int
  ALLELES :: string
  BASEQS :: string

record plp_part_row =
  plp_DROPLET_ID_PARTITIONED :: int
  plp_SNP_ID :: int
  plp_ALLELES :: string
  plp_BASEQS :: string
  plp_PARTITION :: nat

record var_row =
  var_SNP_ID :: int
  CHROM :: string
  POS :: int
  REF :: string
  ALT :: string
  AF :: string

text \<open>
  The codecs, as parameters. \<open>read_csv_cel\<close>, \<open>read_csv_plp\<close> and \<open>read_csv_var\<close> are
  \<^verbatim>\<open>pl.read_csv\<close> (gzip decoding included) with the script's three \<^verbatim>\<open>dtypes\<close>, on the
  bytes of a file: the rows, or the error raised when the file does not parse.
  \<open>write_csv_cel\<close> and \<open>write_csv_plp\<close> are \<^verbatim>\<open>write_csv\<close> with its \<^verbatim>\<open>has_header\<close> flag.
  \<open>gzip_compress\<close> is what a gzip stream opened for writing holds when it is closed after
  the given data was written to it. \<open>gzip_text_lines\<close> is the iteration over a gzip file
  opened in text mode: the lines it yields (each with its line end) and the error, if any,
  that it raises after them.
\<close>

record lib =
  read_csv_cel :: "bytes \<Rightarrow> error + cel_tsv_row list"
  read_csv_plp :: "bytes \<Rightarrow> error + plp_tsv_row list"
  read_csv_var :: "bytes \<Rightarrow> error + var_row list"
  write_csv_cel :: "bool \<Rightarrow> cel_tsv_row list \<Rightarrow> bytes"
  write_csv_plp :: "bool \<Rightarrow> plp_tsv_row list \<Rightarrow> bytes"
  gzip_compress :: "bytes \<Rightarrow> bytes"
  gzip_text_lines :: "bytes \<Rightarrow> string list \<times> error option"

text \<open>Reading a file by name with one of the readers.\<close>

definition read_csv :: "(bytes \<Rightarrow> error + 'a) \<Rightarrow> world \<Rightarrow> path \<Rightarrow> error + 'a" where
  "read_csv reader w p = (case read_file w p of Inl e \<Rightarrow> Inl e | Inr b \<Rightarrow> reader b)"

text \<open>
  \<^verbatim>\<open>gzip_mod.open(p, "w")\<close> creates or truncates the file; leaving the \<^verbatim>\<open>with\<close> block closes
  it, on every path, with the data written so far.
\<close>

definition gzip_open_w :: "path \<Rightarrow> world \<Rightarrow> world" where
  "gzip_open_w p w = write_file p [] w"

definition gzip_close :: "lib \<Rightarrow> path \<Rightarrow> bytes \<Rightarrow> world \<Rightarrow> world" where
  "gzip_close L p data w = write_file p (gzip_compress L data) w"

section \<open>Droplet table merge\<close>

text \<open>
  \<^verbatim>\<open>.rename({"#DROPLET_ID": "DROPLET_ID_PARTITIONED"}).with_columns(pl.lit(i).alias("PARTITION"))\<close>
\<close>

definition cel_part :: "nat \<Rightarrow> cel_tsv_row \<Rightarrow> cel_part_row" where
  "cel_part i r =
     \<lparr>DROPLET_ID_PARTITIONED = tsv_DROPLET_ID r, BARCODE = tsv_BARCODE r,
      NUM_READ = tsv_NUM_READ r, NUM_UMI = tsv_NUM_UMI r, NUM_UMIwSNP = tsv_NUM_UMIwSNP r,
      NUM_SNP = tsv_NUM_SNP r, PARTITION = i\<rparr>"

text \<open>The loop of lines 35 to 63: \<open>i\<close> is the \<^verbatim>\<open>enumerate\<close> index, \<open>dfs\<close> the list appended to.\<close>

fun read_cel_parts ::
  "lib \<Rightarrow> path list \<Rightarrow> nat \<Rightarrow> cel_part_row list list \<Rightarrow> world
     \<Rightarrow> (error + cel_part_row list list) \<times> world" where
  "read_cel_parts L [] i dfs w = (Inr dfs, w)"
| "read_cel_parts L (p # ps) i dfs w =
     (let w1 = eprint (msg_reading ''CEL'' p) w in
      case read_csv (read_csv_cel L) w1 p of
        Inl e \<Rightarrow> (Inl e, w1)
      | Inr rows \<Rightarrow> read_cel_parts L ps (Suc i) (dfs @ [map (cel_part i) rows]) w1)"

text \<open>\<^verbatim>\<open>pl.concat\<close> raises \<^verbatim>\<open>ValueError\<close> on an empty list of frames.\<close>

definition pl_concat :: "'a list list \<Rightarrow> error + 'a list" where
  "pl_concat dfs = (if dfs = [] then Inl (ValueError ''cannot concat empty list'') else Inr (concat dfs))"

text \<open>\<^verbatim>\<open>.with_row_count(name="DROPLET_ID", offset=0)\<close>\<close>

definition add_row_count :: "nat \<Rightarrow> cel_part_row \<Rightarrow> cel_df_row" where
  "add_row_count k r =
     \<lparr>DROPLET_ID_PARTITIONED = DROPLET_ID_PARTITIONED r, BARCODE = BARCODE r,
      NUM_READ = NUM_READ r, NUM_UMI = NUM_UMI r, NUM_UMIwSNP = NUM_UMIwSNP r,
      NUM_SNP = NUM_SNP r, PARTITION = PARTITION r, DROPLET_ID = k\<rparr>"

definition with_row_count :: "cel_part_row list \<Rightarrow> cel_df_row list" where
  "with_row_count rows = map (\<lambda>(k, r). add_row_count k r) (enumerate 0 rows)"

text \<open>The \<^verbatim>\<open>select\<close> of lines 84 to 92: the written columns, the row count under \<^verbatim>\<open>#DROPLET_ID\<close>.\<close>

definition cel_select :: "cel_df_row \<Rightarrow> cel_tsv_row" where
  "cel_select r =
     \<lparr>tsv_DROPLET_ID = int (DROPLET_ID r), tsv_BARCODE = BARCODE r,
      tsv_NUM_READ = NUM_READ r, tsv_NUM_UMI = NUM_UMI r, tsv_NUM_UMIwSNP = NUM_UMIwSNP r,
      tsv_NUM_SNP = NUM_SNP r\<rparr>"

definition cel_full_filename :: "string \<Rightarrow> path" where
  "cel_full_filename full_prefix = full_prefix @ ''.pileup.cel.gz''"

text \<open>
  The result is the returned frame (\<open>None\<close> for Python's \<^verbatim>\<open>None\<close>) or the exception that
  leaves the function, and the world after the call. The message of line 74 says PLP in
  the source.
\<close>

definition write_popscle_pileup_cel_full_filename ::
  "lib \<Rightarrow> string \<Rightarrow> string \<Rightarrow> world \<Rightarrow> (error + cel_df_row list option) \<times> world" where
  "write_popscle_pileup_cel_full_filename L popscle_dsc_output_prefix popscle_dsc_output_full_prefix w =
     (let full = cel_full_filename popscle_dsc_output_full_prefix in
      if path_exists w full then (Inr None, eprint (msg_exists ''CEL'' full) w)
      else
        case read_cel_parts L (sorted_glob w popscle_dsc_output_prefix ''.pileup.cel.gz'') 0 [] w of
          (Inl e, w1) \<Rightarrow> (Inl e, w1)
        | (Inr dfs, w1) \<Rightarrow>
            (case pl_concat dfs of
               Inl e \<Rightarrow> (Inl e, w1)
             | Inr rows \<Rightarrow>
                 (let df = with_row_count rows;
                      w2 = eprint (msg_writing ''PLP'' full) (gzip_open_w full w1);
                      w3 = gzip_close L full (write_csv_cel L True (map cel_select df)) w2
                  in (Inr (Some df), w3))))"

section \<open>Per-SNP table merge\<close>

definition plp_part :: "nat \<Rightarrow> plp_tsv_row \<Rightarrow> plp_part_row" where
  "plp_part i r =
     \<lparr>plp_DROPLET_ID_PARTITIONED = plp_DROPLET_ID r, plp_SNP_ID = SNP_ID r,
      plp_ALLELES = ALLELES r, plp_BASEQS = BASEQS r, plp_PARTITION = i\<rparr>"

text \<open>
  The inner join on \<^verbatim>\<open>["PARTITION", "DROPLET_ID_PARTITIONED"]\<close> followed by the \<^verbatim>\<open>select\<close> of
  lines 166 to 171: one output row for every pair of a shard row and a droplet row with
  the same key. The rows are listed here in the order of the shard's rows; polars does not
  promise an order for a join, and the theorems below speak of the multiset of rows only.
\<close>

definition plp_join_select :: "plp_part_row list \<Rightarrow> cel_df_row list \<Rightarrow> plp_tsv_row list" where
  "plp_join_select rows cel_df =
     [\<lparr>plp_DROPLET_ID = int (DROPLET_ID c), SNP_ID = plp_SNP_ID r,
       ALLELES = plp_ALLELES r, BASEQS = plp_BASEQS r\<rparr>.
      r \<leftarrow> rows, c \<leftarrow> cel_df,
      PARTITION c = plp_PARTITION r \<and> DROPLET_ID_PARTITIONED c = plp_DROPLET_ID_PARTITIONED r]"

text \<open>
  The loop of lines 128 to 183 inside the \<^verbatim>\<open>with\<close> block: \<open>out\<close> is what has been written to
  the open destination. An exception leaves the loop with the data written before it.
\<close>

fun plp_parts ::
  "lib \<Rightarrow> cel_df_row list \<Rightarrow> path list \<Rightarrow> nat \<Rightarrow> bytes \<Rightarrow> world
     \<Rightarrow> (error option \<times> bytes) \<times> world" where
  "plp_parts L cel_df [] i out w = ((None, out), w)"
| "plp_parts L cel_df (p # ps) i out w =
     (let w1 = eprint (msg_reading ''PLP'' p) w in
      case read_csv (read_csv_plp L) w1 p of
        Inl e \<Rightarrow> ((Some e, out), w1)
      | Inr rows \<Rightarrow>
          plp_parts L cel_df ps (Suc i)
            (out @ write_csv_plp L (i = 0) (plp_join_select (map (plp_part i) rows) cel_df)) w1)"

definition plp_full_filename :: "string \<Rightarrow> path" where
  "plp_full_filename full_prefix = full_prefix @ ''.pileup.plp.gz''"

definition write_popscle_pileup_plp_full_filename ::
  "lib \<Rightarrow> cel_df_row list \<Rightarrow> string \<Rightarrow> string \<Rightarrow> world \<Rightarrow> (error + bool) \<times> world" where
  "write_popscle_pileup_plp_full_filename L popscle_pileup_cel_df popscle_dsc_output_prefix
       popscle_dsc_output_full_prefix w =
     (let full = plp_full_filename popscle_dsc_output_full_prefix in
      if path_exists w full then (Inr False, eprint (msg_exists ''PLP'' full) w)
      else
        (let w1 = eprint (msg_writing ''PLP'' full) (gzip_open_w full w) in
         case plp_parts L popscle_pileup_cel_df
                (sorted_glob w1 popscle_dsc_output_prefix ''.pileup.plp.gz'') 0 [] w1 of
           ((err, out), w2) \<Rightarrow>
             (let w3 = gzip_close L full out w2 in
              case err of Some e \<Rightarrow> (Inl e, w3) | None \<Rightarrow> (Inr True, w3))))"

section \<open>UMI table merge\<close>

text \<open>\<^verbatim>\<open>s.split(c, 1)\<close> and indexing a Python list at a non-negative index.\<close>

definition split1 :: "char \<Rightarrow> string \<Rightarrow> string list" where
  "split1 c s =
     (if c \<in> set s then [takeWhile (\<lambda>x. x \<noteq> c) s, tl (dropWhile (\<lambda>x. x \<noteq> c) s)] else [s])"

definition py_index :: "'a list \<Rightarrow> nat \<Rightarrow> error + 'a" where
  "py_index xs i = (if i < length xs then Inr (xs ! i) else Inl (IndexError ''list index out of range''))"

text \<open>\<^verbatim>\<open>str(n)\<close> for a non-negative integer: its decimal digits.\<close>

definition digit :: "nat \<Rightarrow> char" where
  "digit d = ''0123456789'' ! d"

fun str_nat :: "nat \<Rightarrow> string" where
  "str_nat n = (if n < 10 then [digit n] else str_nat (n div 10) @ [digit (n mod 10)])"

declare str_nat.simps [simp del]

text \<open>
  What lines 217 to 223 write for one line:
  \<^verbatim>\<open>print(str(line_count), line.split("\t", 1)[1], sep="\t", end="", file=fh_full)\<close>,
  or the exception of the indexing.
\<close>

definition umi_print :: "nat \<Rightarrow> string \<Rightarrow> error + string" where
  "umi_print line_count line =
     (case py_index (split1 tab line) 1 of
        Inl e \<Rightarrow> Inl e
      | Inr rest \<Rightarrow> Inr (str_nat line_count @ [tab] @ rest))"

text \<open>The inner loop of lines 216 to 224 over the lines of one shard.\<close>

fun umi_lines :: "string list \<Rightarrow> nat \<Rightarrow> string \<Rightarrow> error option \<times> nat \<times> string" where
  "umi_lines [] line_count out = (None, line_count, out)"
| "umi_lines (line # ls) line_count out =
     (case umi_print line_count line of
        Inl e \<Rightarrow> (Some e, line_count, out)
      | Inr text \<Rightarrow> umi_lines ls (Suc line_count) (out @ text))"

text \<open>The outer loop of lines 208 to 224 over the shards.\<close>

fun umi_parts ::
  "lib \<Rightarrow> path list \<Rightarrow> nat \<Rightarrow> string \<Rightarrow> world \<Rightarrow> (error option \<times> nat \<times> string) \<times> world" where
  "umi_parts L [] line_count out w = ((None, line_count, out), w)"
| "umi_parts L (p # ps) line_count out w =
     (let w1 = eprint (msg_reading ''UMI'' p) w in
      case read_file w1 p of
        Inl e \<Rightarrow> ((Some e, line_count, out), w1)
      | Inr b \<Rightarrow>
          (case gzip_text_lines L b of
             (lines, read_err) \<Rightarrow>
               (case umi_lines lines line_count out of
                  (Some e, n, out') \<Rightarrow> ((Some e, n, out'), w1)
                | (None, n, out') \<Rightarrow>
                    (case read_err of
                       Some e \<Rightarrow> ((Some e, n, out'), w1)
                     | None \<Rightarrow> umi_parts L ps n out' w1))))"

definition umi_full_filename :: "string \<Rightarrow> path" where
  "umi_full_filename full_prefix = full_prefix @ ''.pileup.umi.gz''"

definition write_popscle_pileup_umi_full_filename ::
  "lib \<Rightarrow> string \<Rightarrow> string \<Rightarrow> world \<Rightarrow> (error + bool) \<times> world" where
  "write_popscle_pileup_umi_full_filename L popscle_dsc_output_prefix popscle_dsc_output_full_prefix w =
     (let full = umi_full_filename popscle_dsc_output_full_prefix in
      if path_exists w full then (Inr False, eprint (msg_exists ''UMI'' full) w)
      else
        (let w1 = eprint (msg_writing ''UMI'' full) (gzip_open_w full w) in
         case umi_parts L (sorted_glob w1 popscle_dsc_output_prefix ''.pileup.umi.gz'') 0 [] w1 of
           ((err, n, out), w2) \<Rightarrow>
             (let w3 = gzip_close L full out w2 in
              case err of Some e \<Rightarrow> (Inl e, w3) | None \<Rightarrow> (Inr True, w3))))"

section \<open>Variant table reconciliation\<close>

text \<open>
  \<^verbatim>\<open>df[i]\<close> for an integer \<open>i\<close> is \<^verbatim>\<open>df.slice(i, 1)\<close>: the frame of the one row at offset \<open>i\<close>,
  an offset below zero counted from the end (and, beyond the first row, cut at it); a frame
  of no row when the offset is past the end or the frame is empty.
  \<^verbatim>\<open>(a.to_struct(..) == b.to_struct(..)).item()\<close> compares two such frames: \<^verbatim>\<open>item\<close> raises
  \<^verbatim>\<open>ValueError\<close> unless the comparison has exactly one element, which it has when each frame
  has one row.
\<close>

definition df_getitem :: "'a list \<Rightarrow> int \<Rightarrow> 'a list" where
  "df_getitem df i =
     (if 0 \<le> i then (if i < int (length df) then [df ! nat i] else [])
      else if - int (length df) \<le> i then [df ! nat (int (length df) + i)]
      else take 1 df)"

definition struct_eq_item :: "'a list \<Rightarrow> 'a list \<Rightarrow> error + bool" where
  "struct_eq_item a b =
     (if length a = 1 \<and> length b = 1 then Inr (hd a = hd b)
      else Inl (ValueError ''can only call .item() if the Series is of length 1''))"

record var_state =
  most_complete_df :: "var_row list option"
  most_complete_filename :: "path option"

text \<open>Lines 269 to 287: what one shard, once read, does to the two variables.\<close>

definition var_step :: "var_row list \<Rightarrow> path \<Rightarrow> var_state \<Rightarrow> error + var_state" where
  "var_step popscle_pileup_var_df p s =
     (case most_complete_df s of
        None \<Rightarrow> Inr \<lparr>most_complete_df = Some popscle_pileup_var_df, most_complete_filename = Some p\<rparr>
      | Some cand \<Rightarrow>
          if length popscle_pileup_var_df > length cand then
            (case struct_eq_item (df_getitem cand (int (length cand) - 1))
                    (df_getitem popscle_pileup_var_df (int (length cand) - 1)) of
               Inl e \<Rightarrow> Inl e
             | Inr same \<Rightarrow>
                 if same then
                   Inr \<lparr>most_complete_df = Some popscle_pileup_var_df, most_complete_filename = Some p\<rparr>
                 else
                   Inl (AssertionError
                         ''SNP_IDs do not match between different popscle dsc pileup var files.''))
          else Inr s)"

text \<open>The loop of lines 247 to 287.\<close>

fun var_parts :: "lib \<Rightarrow> path list \<Rightarrow> var_state \<Rightarrow> world \<Rightarrow> (error + var_state) \<times> world" where
  "var_parts L [] s w = (Inr s, w)"
| "var_parts L (p # ps) s w =
     (let w1 = eprint (msg_reading ''VAR'' p) w in
      case read_csv (read_csv_var L) w1 p of
        Inl e \<Rightarrow> (Inl e, w1)
      | Inr df \<Rightarrow>
          (case var_step df p s of
             Inl e \<Rightarrow> (Inl e, w1)
           | Inr s' \<Rightarrow> var_parts L ps s' w1))"

text \<open>\<^verbatim>\<open>shutil.copy2\<close>: the bytes of the source become the bytes of the destination.\<close>

definition copy2 :: "path \<Rightarrow> path \<Rightarrow> world \<Rightarrow> error + world" where
  "copy2 src dst w =
     (if src = dst then Inl (LibraryError ''SameFileError'')
      else case read_file w src of Inl e \<Rightarrow> Inl e | Inr b \<Rightarrow> Inr (write_file dst b w))"

definition var_full_filename :: "string \<Rightarrow> path" where
  "var_full_filename full_prefix = full_prefix @ ''.pileup.var.gz''"

text \<open>Line 289 tests the file name for truth: \<^verbatim>\<open>None\<close> and the empty string are false.\<close>

definition write_popscle_pileup_var_full_filename ::
  "lib \<Rightarrow> string \<Rightarrow> string \<Rightarrow> world \<Rightarrow> (error + bool) \<times> world" where
  "write_popscle_pileup_var_full_filename L popscle_dsc_output_prefix popscle_dsc_output_full_prefix w =
     (let full = var_full_filename popscle_dsc_output_full_prefix in
      if path_exists w full then (Inr False, eprint (msg_exists ''VAR'' full) w)
      else
        case var_parts L (sorted_glob w popscle_dsc_output_prefix ''.pileup.var.gz'')
               \<lparr>most_complete_df = None, most_complete_filename = None\<rparr> w of
          (Inl e, w1) \<Rightarrow> (Inl e, w1)
        | (Inr s, w1) \<Rightarrow>
            (case most_complete_filename s of
               None \<Rightarrow> (Inr False, w1)
             | Some p \<Rightarrow>
                 if p \<noteq> [] then
                   (let w2 = eprint (msg_writing ''VAR'' full) w1 in
                    case copy2 p full w2 of
                      Inl e \<Rightarrow> (Inl e, w2)
                    | Inr w3 \<Rightarrow> (Inr True, w3))
                 else (Inr False, w1)))"

section \<open>The driver\<close>

text \<open>
  How the process ends: \<^verbatim>\<open>sys.exit(n)\<close> or the end of \<^verbatim>\<open>main\<close> (status 0), or an exception
  that nothing catches, which ends a Python process with status 1.
\<close>

datatype outcome = Exit nat | Uncaught error

fun exit_status :: "outcome \<Rightarrow> nat" where
  "exit_status (Exit n) = n"
| "exit_status (Uncaught e) = 1"

text \<open>One of the four checks of lines 347 to 373, on the flag \<^verbatim>\<open>output_exists\<close>.\<close>

definition check_output :: "string \<Rightarrow> path \<Rightarrow> bool \<times> world \<Rightarrow> bool \<times> world" where
  "check_output kind p fw =
     (case fw of (output_exists, w) \<Rightarrow>
        if path_exists w p then (True, eprint (msg_exists kind p) w) else (output_exists, w))"

definition check_outputs :: "string \<Rightarrow> world \<Rightarrow> bool \<times> world" where
  "check_outputs full_prefix w =
     check_output ''VAR'' (var_full_filename full_prefix)
       (check_output ''UMI'' (umi_full_filename full_prefix)
         (check_output ''PLP'' (plp_full_filename full_prefix)
           (check_output ''CEL'' (cel_full_filename full_prefix) (False, w))))"

text \<open>Lines 378 to 399: the four procedures in order; the three booleans are dropped.\<close>

definition main_merge :: "lib \<Rightarrow> string \<Rightarrow> string \<Rightarrow> world \<Rightarrow> outcome \<times> world" where
  "main_merge L popscle_dsc_output_prefix popscle_dsc_output_full_prefix w =
     (case write_popscle_pileup_cel_full_filename L popscle_dsc_output_prefix
             popscle_dsc_output_full_prefix w of
        (Inl e, w1) \<Rightarrow> (Uncaught e, w1)
      | (Inr None, w1) \<Rightarrow> (Exit 1, w1)
      | (Inr (Some popscle_pileup_cel_df), w1) \<Rightarrow>
          (case write_popscle_pileup_plp_full_filename L popscle_pileup_cel_df
                  popscle_dsc_output_prefix popscle_dsc_output_full_prefix w1 of
             (Inl e, w2) \<Rightarrow> (Uncaught e, w2)
           | (Inr plp_result, w2) \<Rightarrow>
               (case write_popscle_pileup_umi_full_filename L popscle_dsc_output_prefix
                       popscle_dsc_output_full_prefix w2 of
                  (Inl e, w3) \<Rightarrow> (Uncaught e, w3)
                | (Inr umi_result, w3) \<Rightarrow>
                    (case write_popscle_pileup_var_full_filename L popscle_dsc_output_prefix
                            popscle_dsc_output_full_prefix w3 of
                       (Inl e, w4) \<Rightarrow> (Uncaught e, w4)
                     | (Inr var_result, w4) \<Rightarrow> (Exit 0, w4)))))"

text \<open>\<^verbatim>\<open>main\<close>, from the parsed arguments on.\<close>

definition main :: "lib \<Rightarrow> string \<Rightarrow> string \<Rightarrow> world \<Rightarrow> outcome \<times> world" where
  "main L popscle_dsc_output_prefix popscle_dsc_output_full_prefix w =
     (case check_outputs popscle_dsc_output_full_prefix w of
        (output_exists, w1) \<Rightarrow>
          if output_exists then (Exit 1, w1)
          else main_merge L popscle_dsc_output_prefix popscle_dsc_output_full_prefix w1)"

section \<open>The correction table\<close>

text \<open>
  The specification calls the droplet frame, read as a mapping from
  (partition, partitioned droplet id) to global droplet id, the correction table. The
  script has no such object: it joins against the frame itself.
\<close>

definition correction_table :: "cel_df_row list \<Rightarrow> ((nat \<times> int) \<times> nat) list" where
  "correction_table cel_df =
     map (\<lambda>c. ((PARTITION c, DROPLET_ID_PARTITIONED c), DROPLET_ID c)) cel_df"

section \<open>The renumbered UMI line\<close>

text \<open>
  The specification's output line of the UMI merge: the counter, then the line from its
  first tab on (the leading field discarded, the remaining fields as they were).
\<close>

definition renumbered :: "nat \<Rightarrow> string \<Rightarrow> string" where
  "renumbered k line = str_nat k @ dropWhile (\<lambda>x. x \<noteq> tab) line"


section \<open>The lines of a text\<close>

text \<open>
  A line of a text ends with its line feed; the last line of a text may have none. This
  is what iterating over a text file gives. A line is complete when it ends with a line
  feed (and has no other).
\<close>

definition nl :: char where
  "nl = CHR 0x0A"

fun lines_acc :: "string \<Rightarrow> string \<Rightarrow> string list" where
  "lines_acc acc [] = (if acc = [] then [] else [acc])"
| "lines_acc acc (c # cs) =
     (if c = CHR 0x0A then (acc @ [c]) # lines_acc [] cs else lines_acc (acc @ [c]) cs)"

definition text_lines :: "string \<Rightarrow> string list" where
  "text_lines s = lines_acc [] s"

definition complete_line :: "string \<Rightarrow> bool" where
  "complete_line l \<longleftrightarrow> l \<noteq> [] \<and> last l = nl \<and> nl \<notin> set (butlast l)"

definition umi_records :: "string list \<Rightarrow> string list" where
  "umi_records lines = map (\<lambda>(k, line). renumbered k line) (enumerate 0 lines)"
section \<open>Example inputs\<close>

text \<open>
  A small codec to instantiate the parameters with: every byte of a file is one row (a
  question mark does not parse), text lines end at a line feed, compression puts a
  \<open>z\<close> in front.
\<close>

definition toy_cel_row :: "nat \<times> char \<Rightarrow> cel_tsv_row" where
  "toy_cel_row kc =
     \<lparr>tsv_DROPLET_ID = int (fst kc), tsv_BARCODE = [snd kc], tsv_NUM_READ = 0, tsv_NUM_UMI = 0,
      tsv_NUM_UMIwSNP = 0, tsv_NUM_SNP = 0\<rparr>"

definition toy_plp_row :: "nat \<times> char \<Rightarrow> plp_tsv_row" where
  "toy_plp_row kc =
     \<lparr>plp_DROPLET_ID = int (of_char (snd kc)) - 48, SNP_ID = int (fst kc), ALLELES = [], BASEQS = []\<rparr>"

definition toy_var_row :: "nat \<times> char \<Rightarrow> var_row" where
  "toy_var_row kc =
     \<lparr>var_SNP_ID = int (fst kc), CHROM = [snd kc], POS = 0, REF = [], ALT = [], AF = []\<rparr>"

definition toy_read :: "(nat \<times> char \<Rightarrow> 'a) \<Rightarrow> bytes \<Rightarrow> error + 'a list" where
  "toy_read row b =
     (if CHR ''?'' \<in> set b then Inl (LibraryError ''no parse'') else Inr (map row (enumerate 0 b)))"

definition toy_lib :: lib where
  "toy_lib =
     \<lparr>read_csv_cel = toy_read toy_cel_row,
      read_csv_plp = toy_read toy_plp_row,
      read_csv_var = toy_read toy_var_row,
      write_csv_cel = (\<lambda>h rows. (if h then ''#'' else []) @ concat (map (\<lambda>r. str_nat (nat (tsv_DROPLET_ID r)) @ tsv_BARCODE r) rows)),
      write_csv_plp = (\<lambda>h rows. (if h then ''#'' else []) @ concat (map (\<lambda>r. str_nat (nat (plp_DROPLET_ID r)) @ '':'' @ str_nat (nat (SNP_ID r)) @ '';'') rows)),
      gzip_compress = (\<lambda>b. ''z'' @ b),
      gzip_text_lines = (\<lambda>b. (text_lines b, None))\<rparr>"

text \<open>
  The same codec with a reader of SNP tables that refuses a file of no bytes, as polars
  does (\<^verbatim>\<open>NoDataError\<close>).
\<close>

definition strict_lib :: lib where
  "strict_lib =
     toy_lib\<lparr>read_csv_plp :=
       (\<lambda>b. if b = [] then Inl (LibraryError ''NoDataError'') else toy_read toy_plp_row b)\<rparr>"

definition cel_world :: world where
  "cel_world =
     \<lparr>files = [(''s.2.pileup.cel.gz'', ''f''), (''s.0.pileup.cel.gz'', ''ab''),
               (''s.1.pileup.cel.gz'', ''cde''), (''t.0.pileup.cel.gz'', ''?'')],
      stderr = []\<rparr>"

definition example_cel_df :: "cel_df_row list" where
  "example_cel_df =
     with_row_count
       (concat (map (\<lambda>(i, b). map (cel_part i) (map toy_cel_row (enumerate 0 b)))
          (enumerate 0 [''ab'', ''cde'', ''f''])))"

definition plp_world :: world where
  "plp_world =
     \<lparr>files = [(''s.1.pileup.plp.gz'', ''27''), (''s.0.pileup.plp.gz'', ''01'')], stderr = []\<rparr>"

definition umi_world :: world where
  "umi_world =
     \<lparr>files = [(''s.1.pileup.umi.gz'', ''0'' @ tab # ''C'' @ [nl]),
               (''s.0.pileup.umi.gz'', ''7'' @ tab # ''A'' @ [nl] @ ''9'' @ tab # ''B'' @ [nl])],
      stderr = []\<rparr>"

definition umi_cut_world :: world where
  "umi_cut_world =
     \<lparr>files = [(''s.0.pileup.umi.gz'', ''7'' @ tab # ''A''),
               (''s.1.pileup.umi.gz'', ''0'' @ tab # ''C'' @ [nl])],
      stderr = []\<rparr>"


definition var_world :: world where
  "var_world =
     \<lparr>files = [(''s.2.pileup.var.gz'', ''abcxy''), (''s.0.pileup.var.gz'', ''abc''),
               (''s.1.pileup.var.gz'', ''abcde'')],
      stderr = []\<rparr>"

definition var_bad_world :: world where
  "var_bad_world =
     \<lparr>files = [(''s.0.pileup.var.gz'', ''abc''), (''s.1.pileup.var.gz'', ''abXde'')],
      stderr = []\<rparr>"

definition exists_world :: world where
  "exists_world =
     \<lparr>files = [(''s.0.pileup.cel.gz'', ''ab''), (''m.pileup.plp.gz'', ''old''),
               (''m.pileup.var.gz'', ''older'')],
      stderr = []\<rparr>"

definition empty_world :: world where
  "empty_world = \<lparr>files = [], stderr = []\<rparr>"

definition cel_only_world :: world where
  "cel_only_world = \<lparr>files = [(''s.0.pileup.cel.gz'', ''ab'')], stderr = []\<rparr>"

definition plp_taken_world :: world where
  "plp_taken_world =
     \<lparr>files = [(''s.0.pileup.cel.gz'', ''ab''), (''m.pileup.plp.gz'', ''old'')], stderr = []\<rparr>"

definition umi_tabless_world :: world where
  "umi_tabless_world =
     \<lparr>files = [(''s.0.pileup.cel.gz'', ''ab''), (''s.0.pileup.umi.gz'', ''XYZ'' @ [nl])],
      stderr = []\<rparr>"

definition var_empty_first_world :: world where
  "var_empty_first_world =
     \<lparr>files = [(''s.0.pileup.var.gz'', []), (''s.1.pileup.var.gz'', ''a'')], stderr = []\<rparr>"

section \<open>Facts about the world and the loops\<close>

lemma files_eprint [simp]: "files (eprint m w) = files w"
  by (simp add: eprint_def)

lemma stderr_eprint [simp]: "stderr (eprint m w) = stderr w @ [m]"
  by (simp add: eprint_def)

lemma path_exists_eprint [simp]: "path_exists (eprint m w) p = path_exists w p"
  by (simp add: path_exists_def)

lemma read_file_eprint [simp]: "read_file (eprint m w) p = read_file w p"
  by (simp add: read_file_def)

lemma read_csv_eprint [simp]: "read_csv rd (eprint m w) p = read_csv rd w p"
  by (simp add: read_csv_def)

lemma sorted_glob_eprint [simp]: "sorted_glob (eprint m w) pre suf = sorted_glob w pre suf"
  by (simp add: sorted_glob_def glob_def)

lemma map_of_write_file: "map_of (files (write_file p b w)) = (map_of (files w))(p \<mapsto> b)"
  by (simp add: write_file_def update_conv')

lemma stderr_write_file [simp]: "stderr (write_file p b w) = stderr w"
  by (simp add: write_file_def)

lemma read_file_write_file:
  "read_file (write_file p b w) q = (if q = p then Inr b else read_file w q)"
  by (simp add: read_file_def map_of_write_file)

lemma path_exists_write_file:
  "path_exists (write_file p b w) q \<longleftrightarrow> q = p \<or> path_exists w q"
  by (simp add: path_exists_def map_of_write_file)

lemma read_cel_parts_ok:
  "list_all2 (\<lambda>p rows. read_csv (read_csv_cel L) w p = Inr rows) ps shards \<Longrightarrow>
   \<exists>w'. read_cel_parts L ps i dfs w =
          (Inr (dfs @ map (\<lambda>(k, rows). map (cel_part k) rows) (enumerate i shards)), w') \<and>
        files w' = files w \<and> stderr w' = stderr w @ map (msg_reading ''CEL'') ps"
proof (induction ps arbitrary: i dfs w shards)
  case Nil
  then show ?case by simp
next
  case (Cons p ps)
  then obtain rows rest where sh: "shards = rows # rest"
    and r: "read_csv (read_csv_cel L) w p = Inr rows"
    and rest: "list_all2 (\<lambda>p rows. read_csv (read_csv_cel L) w p = Inr rows) ps rest"
    by (auto simp: list_all2_Cons1)
  let ?w1 = "eprint (msg_reading ''CEL'' p) w"
  have "list_all2 (\<lambda>p rows. read_csv (read_csv_cel L) ?w1 p = Inr rows) ps rest"
    using rest by simp
  from Cons.IH [OF this, of "Suc i" "dfs @ [map (cel_part i) rows]"] show ?case
    using r by (auto simp: sh)
qed

lemma length_with_row_count [simp]: "length (with_row_count rows) = length rows"
  by (simp add: with_row_count_def)

lemma nth_with_row_count:
  "k < length rows \<Longrightarrow> with_row_count rows ! k = add_row_count k (rows ! k)"
  by (simp add: with_row_count_def nth_enumerate_eq)

lemma DROPLET_ID_with_row_count: "map DROPLET_ID (with_row_count rows) = [0..<length rows]"
  by (rule nth_equalityI) (simp_all add: nth_with_row_count add_row_count_def)

lemma truncate_with_row_count: "map cel_part_row.truncate (with_row_count rows) = rows"
  by (rule nth_equalityI) (simp_all add: nth_with_row_count add_row_count_def cel_part_row.truncate_def)


lemma sorted_sorted_glob: "sorted (sorted_glob w pre suf)"
  by (simp add: sorted_glob_def)

lemma length_concat_parts:
  "length (concat (map (\<lambda>(i, rows). map (f i) rows) (enumerate n shards))) = length (concat shards)"
  by (induction shards arbitrary: n) simp_all

lemma sorted_glob_set:
  "sorted_glob w prefix suf =
     sorted_list_of_set {p \<in> fst ` set (files w). glob_match (prefix @ ''.'') suf p}"
proof -
  let ?P = "glob_match (prefix @ ''.'') suf"
  let ?xs = "filter ?P (map fst (files w))"
  have "sort (filter ?P (remdups (map fst (files w)))) = sort (remdups ?xs)"
    by (simp only: remdups_filter)
  also have "\<dots> = sorted_list_of_set (set ?xs)"
    by (simp only: sorted_list_of_set_sort_remdups)
  also have "set ?xs = {p \<in> fst ` set (files w). ?P p}"
    by auto
  finally show ?thesis
    by (simp only: sorted_glob_def glob_def)
qed

lemma set_sorted_glob:
  "set (sorted_glob w prefix suf) = {p \<in> fst ` set (files w). glob_match (prefix @ ''.'') suf p}"
  by (simp add: sorted_glob_set)

lemma distinct_sorted_glob: "distinct (sorted_glob w prefix suf)"
  by (simp add: sorted_glob_set)

lemma path_exists_iff: "path_exists w p \<longleftrightarrow> p \<in> fst ` set (files w)"
  by (simp add: path_exists_def map_of_eq_None_iff)

lemma sorted_glob_exists: "p \<in> set (sorted_glob w prefix suf) \<Longrightarrow> path_exists w p"
  by (simp add: set_sorted_glob path_exists_iff)

lemma sorted_glob_match:
  "p \<in> set (sorted_glob w prefix suf) \<Longrightarrow> glob_match (prefix @ ''.'') suf p"
  by (simp add: set_sorted_glob)

lemma sorted_glob_write_file:
  "\<not> glob_match (prefix @ ''.'') suf p \<Longrightarrow>
   sorted_glob (write_file p b w) prefix suf = sorted_glob w prefix suf"
proof -
  assume "\<not> glob_match (prefix @ ''.'') suf p"
  then have "{q \<in> fst ` set (files (write_file p b w)). glob_match (prefix @ ''.'') suf q} =
             {q \<in> fst ` set (files w). glob_match (prefix @ ''.'') suf q}"
    by (auto simp: write_file_def dom_update)
  then show ?thesis
    by (simp add: sorted_glob_set)
qed

lemma read_csv_write_file:
  "q \<noteq> p \<Longrightarrow> read_csv rd (write_file p b w) q = read_csv rd w q"
  by (simp add: read_csv_def read_file_write_file)

lemma plp_parts_ok:
  "list_all2 (\<lambda>p rows. read_csv (read_csv_plp L) w p = Inr rows) ps shards \<Longrightarrow>
   \<exists>w'. plp_parts L cel_df ps i out w =
          ((None, out @ concat (map (\<lambda>(k, rows).
                 write_csv_plp L (k = 0) (plp_join_select (map (plp_part k) rows) cel_df))
               (enumerate i shards))), w') \<and>
        files w' = files w \<and> stderr w' = stderr w @ map (msg_reading ''PLP'') ps"
proof (induction ps arbitrary: i out w shards)
  case Nil
  then show ?case by simp
next
  case (Cons p ps)
  then obtain rows rest where sh: "shards = rows # rest"
    and r: "read_csv (read_csv_plp L) w p = Inr rows"
    and rest: "list_all2 (\<lambda>p rows. read_csv (read_csv_plp L) w p = Inr rows) ps rest"
    by (auto simp: list_all2_Cons1)
  let ?w1 = "eprint (msg_reading ''PLP'' p) w"
  have "list_all2 (\<lambda>p rows. read_csv (read_csv_plp L) ?w1 p = Inr rows) ps rest"
    using rest by simp
  from Cons.IH [OF this, of "Suc i"
      "out @ write_csv_plp L (i = 0) (plp_join_select (map (plp_part i) rows) cel_df)"]
  show ?case
    using r by (auto simp: sh)
qed

lemma join_one_row:
  assumes "distinct (map fst (correction_table cel_df))"
  shows "concat (map (\<lambda>c. if PARTITION c = i \<and> DROPLET_ID_PARTITIONED c = d then [f (DROPLET_ID c)] else []) cel_df) =
         (case map_of (correction_table cel_df) (i, d) of None \<Rightarrow> [] | Some g \<Rightarrow> [f g])"
  using assms
proof (induction cel_df)
  case Nil
  then show ?case by (simp add: correction_table_def)
next
  case (Cons c cs)
  then have d: "distinct (map fst (correction_table cs))"
    and notin: "(PARTITION c, DROPLET_ID_PARTITIONED c) \<notin> fst ` set (correction_table cs)"
    by (auto simp: correction_table_def)
  show ?case
  proof (cases "PARTITION c = i \<and> DROPLET_ID_PARTITIONED c = d")
    case True
    with notin have "map_of (correction_table cs) (i, d) = None"
      by (auto simp: map_of_eq_None_iff)
    with Cons.IH [OF d] True show ?thesis
      by (auto simp: correction_table_def)
  next
    case False
    with Cons.IH [OF d] show ?thesis
      by (auto simp: correction_table_def)
  qed
qed

lemma plp_join_select_unique:
  assumes "distinct (map fst (correction_table cel_df))"
  shows "plp_join_select (map (plp_part i) rows) cel_df =
         map (\<lambda>r. r\<lparr>plp_DROPLET_ID := int (the (map_of (correction_table cel_df) (i, plp_DROPLET_ID r)))\<rparr>)
           (filter (\<lambda>r. map_of (correction_table cel_df) (i, plp_DROPLET_ID r) \<noteq> None) rows)"
proof (induction rows)
  case Nil
  then show ?case by (simp add: plp_join_select_def)
next
  case (Cons r rows)
  have "plp_join_select (map (plp_part i) (r # rows)) cel_df =
        concat (map (\<lambda>c. if PARTITION c = i \<and> DROPLET_ID_PARTITIONED c = plp_DROPLET_ID r
                          then [\<lparr>plp_DROPLET_ID = int (DROPLET_ID c), SNP_ID = SNP_ID r, ALLELES = ALLELES r, BASEQS = BASEQS r\<rparr>]
                          else []) cel_df)
        @ plp_join_select (map (plp_part i) rows) cel_df"
    by (simp add: plp_join_select_def plp_part_def cong: if_cong)
  also have "concat (map (\<lambda>c. if PARTITION c = i \<and> DROPLET_ID_PARTITIONED c = plp_DROPLET_ID r
                          then [\<lparr>plp_DROPLET_ID = int (DROPLET_ID c), SNP_ID = SNP_ID r, ALLELES = ALLELES r, BASEQS = BASEQS r\<rparr>]
                          else []) cel_df) =
       (case map_of (correction_table cel_df) (i, plp_DROPLET_ID r) of None \<Rightarrow> []
        | Some g \<Rightarrow> [\<lparr>plp_DROPLET_ID = int g, SNP_ID = SNP_ID r, ALLELES = ALLELES r, BASEQS = BASEQS r\<rparr>])"
    using join_one_row [OF assms, of i "plp_DROPLET_ID r"
        "\<lambda>g. \<lparr>plp_DROPLET_ID = int g, SNP_ID = SNP_ID r, ALLELES = ALLELES r, BASEQS = BASEQS r\<rparr>"]
    by simp
  finally show ?case
    using Cons.IH by (cases r) (auto split: option.splits)
qed


lemma enumerate_map_index:
  "enumerate n (map (\<lambda>(k, x). g k x) (enumerate n xs)) = map (\<lambda>(k, x). (k, g k x)) (enumerate n xs)"
  by (rule nth_equalityI) (simp_all add: nth_enumerate_eq)

lemma dropWhile_tab:
  assumes "tab \<in> set line"
  shows "tab # tl (dropWhile (\<lambda>x. x \<noteq> tab) line) = dropWhile (\<lambda>x. x \<noteq> tab) line"
proof -
  let ?drop = "dropWhile (\<lambda>x. x \<noteq> tab) line"
  from assms have ne: "?drop \<noteq> []"
    by simp
  then have "hd ?drop = tab"
    using hd_dropWhile [of "\<lambda>x. x \<noteq> tab" line] by simp
  with ne show ?thesis
    by (cases ?drop) simp_all
qed

lemma umi_print_eq:
  "umi_print k line =
     (if tab \<in> set line then Inr (renumbered k line)
      else Inl (IndexError ''list index out of range''))"
  by (simp add: umi_print_def py_index_def split1_def renumbered_def dropWhile_tab)

lemma umi_lines_eq:
  "umi_lines ls n out =
     (if \<forall>l \<in> set ls. tab \<in> set l then None else Some (IndexError ''list index out of range''),
      n + length (takeWhile (\<lambda>l. tab \<in> set l) ls),
      out @ concat (map (\<lambda>(k, l). renumbered k l) (enumerate n (takeWhile (\<lambda>l. tab \<in> set l) ls))))"
  by (induction ls arbitrary: n out) (simp_all add: umi_print_eq)

lemma umi_lines_append:
  "umi_lines (xs @ ys) n out =
     (case umi_lines xs n out of
        (Some e, n', out') \<Rightarrow> (Some e, n', out')
      | (None, n', out') \<Rightarrow> umi_lines ys n' out')"
  by (induction xs arbitrary: n out) (auto split: sum.splits)

lemma umi_parts_ok:
  "list_all2 (\<lambda>p lines. \<exists>b. read_file w p = Inr b \<and> gzip_text_lines L b = (lines, None)) ps shards \<Longrightarrow>
   \<exists>w'. umi_parts L ps n out w = (umi_lines (concat shards) n out, w') \<and> files w' = files w"
proof (induction ps arbitrary: n out w shards)
  case Nil
  then show ?case by simp
next
  case (Cons p ps)
  then obtain lines rest b where sh: "shards = lines # rest"
    and r: "read_file w p = Inr b" "gzip_text_lines L b = (lines, None)"
    and rest: "list_all2 (\<lambda>p lines. \<exists>b. read_file w p = Inr b \<and> gzip_text_lines L b = (lines, None)) ps rest"
    by (auto simp: list_all2_Cons1)
  let ?w1 = "eprint (msg_reading ''UMI'' p) w"
  have rest1: "list_all2 (\<lambda>p lines. \<exists>b. read_file ?w1 p = Inr b \<and> gzip_text_lines L b = (lines, None)) ps rest"
    using rest by simp
  obtain e n' out' where ul: "umi_lines lines n out = (e, n', out')"
    by (cases "umi_lines lines n out") auto
  show ?case
  proof (cases e)
    case None
    from Cons.IH [OF rest1, of n' out'] show ?thesis
      using r ul None by (auto simp: sh umi_lines_append)
  next
    case (Some err)
    then show ?thesis
      using r ul by (auto simp: sh umi_lines_append)
  qed
qed


lemma umi_merge_run:
  assumes dest: "\<not> path_exists w (umi_full_filename full_prefix)"
    and noalias: "\<not> glob_match (prefix @ ''.'') ''.pileup.umi.gz'' (umi_full_filename full_prefix)"
    and rd: "list_all2 (\<lambda>p lines. \<exists>b. read_file w p = Inr b \<and> gzip_text_lines L b = (lines, None))
                  (sorted_glob w prefix ''.pileup.umi.gz'') shards"
  shows "\<exists>w'. write_popscle_pileup_umi_full_filename L prefix full_prefix w =
            ((case fst (umi_lines (concat shards) 0 []) of None \<Rightarrow> Inr True | Some e \<Rightarrow> Inl e), w') \<and>
          read_file w' (umi_full_filename full_prefix) =
            Inr (gzip_compress L (snd (snd (umi_lines (concat shards) 0 []))))"
proof -
  let ?full = "umi_full_filename full_prefix"
  let ?names = "sorted_glob w prefix ''.pileup.umi.gz''"
  let ?w1 = "eprint (msg_writing ''UMI'' ?full) (gzip_open_w ?full w)"
  have names1: "sorted_glob (gzip_open_w ?full w) prefix ''.pileup.umi.gz'' = ?names"
    using noalias by (simp add: gzip_open_w_def sorted_glob_write_file)
  have "list_all2 (\<lambda>p lines. \<exists>b. read_file ?w1 p = Inr b \<and> gzip_text_lines L b = (lines, None)) ?names shards"
  proof (rule list.rel_mono_strong [OF rd])
    fix p lines
    assume "p \<in> set ?names"
      and r: "\<exists>b. read_file w p = Inr b \<and> gzip_text_lines L b = (lines, None)"
    then have "p \<noteq> ?full"
      using dest sorted_glob_exists by blast
    then show "\<exists>b. read_file ?w1 p = Inr b \<and> gzip_text_lines L b = (lines, None)"
      using r by (simp add: gzip_open_w_def read_file_write_file)
  qed
  from umi_parts_ok [OF this, of 0 "[]"] obtain w2 where
    loop: "umi_parts L ?names 0 [] ?w1 = (umi_lines (concat shards) 0 [], w2)"
    by auto
  obtain e n out where ul: "umi_lines (concat shards) 0 [] = (e, n, out)"
    by (cases "umi_lines (concat shards) 0 []") auto
  let ?w3 = "gzip_close L ?full out w2"
  have "write_popscle_pileup_umi_full_filename L prefix full_prefix w =
          ((case e of None \<Rightarrow> Inr True | Some e \<Rightarrow> Inl e), ?w3)"
    using dest loop ul
    by (simp add: write_popscle_pileup_umi_full_filename_def Let_def names1 split: option.splits)
  moreover have "read_file ?w3 ?full = Inr (gzip_compress L out)"
    by (simp add: gzip_close_def read_file_write_file)
  ultimately show ?thesis
    using ul by auto
qed

lemma df_getitem_boundary:
  "0 < n \<Longrightarrow> n \<le> length xs \<Longrightarrow> df_getitem xs (int n - 1) = [xs ! (n - 1)]"
  by (auto simp: df_getitem_def nat_diff_distrib')

lemma df_getitem_minus1:
  "df_getitem xs (- 1) = (if xs = [] then [] else [xs ! (length xs - 1)])"
  by (cases xs) (auto simp: df_getitem_def nat_diff_distrib')

lemma var_step_None:
  "most_complete_df s = None \<Longrightarrow>
   var_step df p s = Inr \<lparr>most_complete_df = Some df, most_complete_filename = Some p\<rparr>"
  by (simp add: var_step_def)

lemma var_step_not_larger:
  "most_complete_df s = Some cand \<Longrightarrow> length df \<le> length cand \<Longrightarrow> var_step df p s = Inr s"
  by (simp add: var_step_def)

lemma var_step_larger:
  "most_complete_df s = Some cand \<Longrightarrow> length cand < length df \<Longrightarrow>
   var_step df p s =
     (if cand = [] then Inl (ValueError ''can only call .item() if the Series is of length 1'')
      else if cand ! (length cand - 1) = df ! (length cand - 1)
        then Inr \<lparr>most_complete_df = Some df, most_complete_filename = Some p\<rparr>
        else Inl (AssertionError ''SNP_IDs do not match between different popscle dsc pileup var files.''))"
  by (auto simp: var_step_def struct_eq_item_def df_getitem_boundary df_getitem_minus1)

lemma var_step_Inr:
  assumes "var_step df p s = Inr s'"
  shows "(s' = \<lparr>most_complete_df = Some df, most_complete_filename = Some p\<rparr> \<and>
          (\<forall>cand. most_complete_df s = Some cand \<longrightarrow> length cand < length df)) \<or>
         (s' = s \<and> (\<exists>cand. most_complete_df s = Some cand \<and> length df \<le> length cand))"
proof (cases "most_complete_df s")
  case None
  with assms show ?thesis by (simp add: var_step_None)
next
  case (Some cand)
  show ?thesis
  proof (cases "length cand < length df")
    case True
    with assms Some show ?thesis
      by (auto simp: var_step_larger split: if_splits)
  next
    case False
    with assms Some show ?thesis
      by (auto simp: var_step_not_larger)
  qed
qed

lemma var_parts_files: "var_parts L ps s w = (r, w1) \<Longrightarrow> files w1 = files w"
proof (induction ps arbitrary: s w)
  case Nil
  then show ?case by simp
next
  case (Cons p ps)
  then show ?case
    by (fastforce simp: Let_def split: sum.splits)
qed

lemma var_parts_select:
  assumes "list_all2 (\<lambda>p df. read_csv (read_csv_var L) w p = Inr df) ps shards"
    and "var_parts L ps s w = (Inr s', w')"
    and "most_complete_df s = Some cand"
  shows "(s' = s \<and> (\<forall>j < length shards. length (shards ! j) \<le> length cand)) \<or>
         (\<exists>k < length shards.
            most_complete_df s' = Some (shards ! k) \<and> most_complete_filename s' = Some (ps ! k) \<and>
            length cand < length (shards ! k) \<and>
            (\<forall>j < length shards. length (shards ! j) \<le> length (shards ! k)) \<and>
            (\<forall>j < k. length (shards ! j) < length (shards ! k)))"
  using assms
proof (induction ps arbitrary: s w shards cand)
  case Nil
  then show ?case by simp
next
  case (Cons p ps)
  from Cons.prems(1) obtain df rest where sh: "shards = df # rest"
    and r: "read_csv (read_csv_var L) w p = Inr df"
    and rest: "list_all2 (\<lambda>p df. read_csv (read_csv_var L) w p = Inr df) ps rest"
    by (auto simp: list_all2_Cons1)
  let ?w1 = "eprint (msg_reading ''VAR'' p) w"
  have rest1: "list_all2 (\<lambda>p df. read_csv (read_csv_var L) ?w1 p = Inr df) ps rest"
    using rest by simp
  from Cons.prems(2) r obtain s1 where st: "var_step df p s = Inr s1"
    and run: "var_parts L ps s1 ?w1 = (Inr s', w')"
    by (auto simp: Let_def split: sum.splits)
  from var_step_Inr [OF st] Cons.prems(3)
  consider (new) "s1 = \<lparr>most_complete_df = Some df, most_complete_filename = Some p\<rparr>"
      "length cand < length df"
    | (same) "s1 = s" "length df \<le> length cand"
    by auto
  then show ?case
  proof cases
    case new
    then have c1: "most_complete_df s1 = Some df" by simp
    from Cons.IH [OF rest1 run c1] show ?thesis
    proof
      assume a: "s' = s1 \<and> (\<forall>j < length rest. length (rest ! j) \<le> length df)"
      have "0 < length shards" by (simp add: sh)
      moreover have "most_complete_df s' = Some (shards ! 0)" "most_complete_filename s' = Some ((p # ps) ! 0)"
        using a new by (simp_all add: sh)
      moreover have "length cand < length (shards ! 0)"
        using new by (simp add: sh)
      moreover have "\<forall>j < length shards. length (shards ! j) \<le> length (shards ! 0)"
        using a by (auto simp: sh nth_Cons split: nat.splits)
      ultimately show ?thesis by blast
    next
      assume "\<exists>k < length rest.
            most_complete_df s' = Some (rest ! k) \<and> most_complete_filename s' = Some (ps ! k) \<and>
            length df < length (rest ! k) \<and>
            (\<forall>j < length rest. length (rest ! j) \<le> length (rest ! k)) \<and>
            (\<forall>j < k. length (rest ! j) < length (rest ! k))"
      then obtain k where k: "k < length rest"
        "most_complete_df s' = Some (rest ! k)" "most_complete_filename s' = Some (ps ! k)"
        "length df < length (rest ! k)"
        "\<forall>j < length rest. length (rest ! j) \<le> length (rest ! k)"
        "\<forall>j < k. length (rest ! j) < length (rest ! k)"
        by blast
      have "Suc k < length shards" using k by (simp add: sh)
      moreover have "most_complete_df s' = Some (shards ! Suc k)"
        "most_complete_filename s' = Some ((p # ps) ! Suc k)"
        using k by (simp_all add: sh)
      moreover have "length cand < length (shards ! Suc k)"
        using k new by (simp add: sh)
      moreover have "\<forall>j < length shards. length (shards ! j) \<le> length (shards ! Suc k)"
        using k by (auto simp: sh nth_Cons split: nat.splits)
      moreover have "\<forall>j < Suc k. length (shards ! j) < length (shards ! Suc k)"
        using k by (auto simp: sh nth_Cons split: nat.splits)
      ultimately show ?thesis by blast
    qed
  next
    case same
    from Cons.IH [OF rest1 run [unfolded same(1)] Cons.prems(3)] show ?thesis
    proof
      assume a: "s' = s \<and> (\<forall>j < length rest. length (rest ! j) \<le> length cand)"
      then have "\<forall>j < length shards. length (shards ! j) \<le> length cand"
        using same by (auto simp: sh nth_Cons split: nat.splits)
      with a show ?thesis by blast
    next
      assume "\<exists>k < length rest.
            most_complete_df s' = Some (rest ! k) \<and> most_complete_filename s' = Some (ps ! k) \<and>
            length cand < length (rest ! k) \<and>
            (\<forall>j < length rest. length (rest ! j) \<le> length (rest ! k)) \<and>
            (\<forall>j < k. length (rest ! j) < length (rest ! k))"
      then obtain k where k: "k < length rest"
        "most_complete_df s' = Some (rest ! k)" "most_complete_filename s' = Some (ps ! k)"
        "length cand < length (rest ! k)"
        "\<forall>j < length rest. length (rest ! j) \<le> length (rest ! k)"
        "\<forall>j < k. length (rest ! j) < length (rest ! k)"
        by blast
      have "Suc k < length shards" using k by (simp add: sh)
      moreover have "most_complete_df s' = Some (shards ! Suc k)"
        "most_complete_filename s' = Some ((p # ps) ! Suc k)"
        using k by (simp_all add: sh)
      moreover have "length cand < length (shards ! Suc k)"
        using k by (simp add: sh)
      moreover have "\<forall>j < length shards. length (shards ! j) \<le> length (shards ! Suc k)"
        using k same by (auto simp: sh nth_Cons split: nat.splits)
      moreover have "\<forall>j < Suc k. length (shards ! j) < length (shards ! Suc k)"
        using k same by (auto simp: sh nth_Cons split: nat.splits)
      ultimately show ?thesis by blast
    qed
  qed
qed


lemma var_parts_filename:
  "var_parts L ps s w = (Inr s', w1) \<Longrightarrow> most_complete_filename s' = Some p \<Longrightarrow>
   p \<in> set ps \<or> most_complete_filename s = Some p"
proof (induction ps arbitrary: s w)
  case Nil
  then show ?case by simp
next
  case (Cons q ps)
  let ?w1 = "eprint (msg_reading ''VAR'' q) w"
  from Cons.prems(1) obtain df s1 where st: "var_step df q s = Inr s1"
    and run: "var_parts L ps s1 ?w1 = (Inr s', w1)"
    by (auto simp: Let_def split: sum.splits)
  from Cons.IH [OF run Cons.prems(2)] var_step_Inr [OF st] show ?case
    by auto
qed

lemma read_file_cong: "files w' = files w \<Longrightarrow> read_file w' p = read_file w p"
  by (simp add: read_file_def)

lemma read_file_exists: "path_exists w p \<Longrightarrow> \<exists>b. read_file w p = Inr b"
  by (auto simp: path_exists_def read_file_def)

lemma glob_match_nonempty: "glob_match pre suf p \<Longrightarrow> suf \<noteq> [] \<Longrightarrow> p \<noteq> []"
  by (auto simp: glob_match_def)

lemma var_row_eq_iff:
  "(a = b) \<longleftrightarrow>
     var_SNP_ID a = var_SNP_ID b \<and> CHROM a = CHROM b \<and> POS a = POS b \<and>
     REF a = REF b \<and> ALT a = ALT b \<and> AF a = AF (b :: var_row)"
  by (cases a, cases b) auto

lemma var_parts_step:
  "read_csv (read_csv_var L) w p = Inr df \<Longrightarrow>
   var_parts L (p # ps) s w =
     (case var_step df p s of
        Inl e \<Rightarrow> (Inl e, eprint (msg_reading ''VAR'' p) w)
      | Inr s' \<Rightarrow> var_parts L ps s' (eprint (msg_reading ''VAR'' p) w))"
  by (simp add: Let_def)

lemma check_outputs_fst:
  "fst (check_outputs f w) \<longleftrightarrow>
     path_exists w (cel_full_filename f) \<or> path_exists w (plp_full_filename f) \<or>
     path_exists w (umi_full_filename f) \<or> path_exists w (var_full_filename f)"
  by (simp add: check_outputs_def check_output_def)

lemma check_outputs_files: "files (snd (check_outputs f w)) = files w"
  by (simp add: check_outputs_def check_output_def)

lemma check_outputs_stderr:
  "stderr (snd (check_outputs f w)) =
     stderr w @
     [msg_exists kind p.
        (kind, p) \<leftarrow> [(''CEL'', cel_full_filename f), (''PLP'', plp_full_filename f),
                     (''UMI'', umi_full_filename f), (''VAR'', var_full_filename f)],
        path_exists w p]"
  by (simp add: check_outputs_def check_output_def)

lemma check_outputs_none: "\<not> fst (check_outputs f w) \<Longrightarrow> check_outputs f w = (False, w)"
  by (simp add: check_outputs_def check_output_def split: if_splits)

lemma dest_names_differ:
  "cel_full_filename f \<noteq> plp_full_filename f" "cel_full_filename f \<noteq> umi_full_filename f"
  "cel_full_filename f \<noteq> var_full_filename f" "plp_full_filename f \<noteq> umi_full_filename f"
  "plp_full_filename f \<noteq> var_full_filename f" "umi_full_filename f \<noteq> var_full_filename f"
  "plp_full_filename f \<noteq> cel_full_filename f" "umi_full_filename f \<noteq> cel_full_filename f"
  "var_full_filename f \<noteq> cel_full_filename f" "umi_full_filename f \<noteq> plp_full_filename f"
  "var_full_filename f \<noteq> plp_full_filename f" "var_full_filename f \<noteq> umi_full_filename f"
  by (simp_all add: cel_full_filename_def plp_full_filename_def umi_full_filename_def
        var_full_filename_def)

lemma other_kind_no_match:
  "\<not> glob_match pre ''.pileup.plp.gz'' (cel_full_filename f)"
  "\<not> glob_match pre ''.pileup.umi.gz'' (cel_full_filename f)"
  "\<not> glob_match pre ''.pileup.var.gz'' (cel_full_filename f)"
  "\<not> glob_match pre ''.pileup.umi.gz'' (plp_full_filename f)"
  "\<not> glob_match pre ''.pileup.var.gz'' (plp_full_filename f)"
  "\<not> glob_match pre ''.pileup.var.gz'' (umi_full_filename f)"
  by (simp_all add: glob_match_def cel_full_filename_def plp_full_filename_def
        umi_full_filename_def)

lemma sorted_glob_map_of:
  assumes "map_of (files w') = map_of (files w)"
  shows "sorted_glob w' prefix suf = sorted_glob w prefix suf"
proof -
  have "fst ` set (files w') = fst ` set (files w)"
    using assms by (metis dom_map_of_conv_image_fst)
  then show ?thesis
    by (simp add: sorted_glob_set)
qed

lemma sorted_glob_map_upd:
  assumes "map_of (files w') = (map_of (files w))(q \<mapsto> b)"
    and "\<not> glob_match (prefix @ ''.'') suf q"
  shows "sorted_glob w' prefix suf = sorted_glob w prefix suf"
proof -
  have "map_of (files w') = map_of (files (write_file q b w))"
    using assms(1) by (simp add: map_of_write_file)
  then have "sorted_glob w' prefix suf = sorted_glob (write_file q b w) prefix suf"
    by (rule sorted_glob_map_of)
  with assms(2) show ?thesis
    by (simp add: sorted_glob_write_file)
qed

lemma read_cel_parts_files: "read_cel_parts L ps i dfs w = (r, w1) \<Longrightarrow> files w1 = files w"
proof (induction ps arbitrary: i dfs w)
  case Nil
  then show ?case by simp
next
  case (Cons p ps)
  then show ?case
    by (fastforce simp: Let_def split: sum.splits)
qed

lemma cel_merge_frame:
  assumes "write_popscle_pileup_cel_full_filename L prefix f w = (Inr (Some df), w1)"
  shows "\<not> path_exists w (cel_full_filename f) \<and>
         (\<exists>b. map_of (files w1) = (map_of (files w))(cel_full_filename f \<mapsto> b))"
proof -
  let ?full = "cel_full_filename f"
  from assms have ne: "\<not> path_exists w ?full"
    by (auto simp: write_popscle_pileup_cel_full_filename_def Let_def split: if_splits)
  with assms obtain dfs w0 b where
    rd: "read_cel_parts L (sorted_glob w prefix ''.pileup.cel.gz'') 0 [] w = (Inr dfs, w0)"
    and w1: "w1 = gzip_close L ?full b (eprint (msg_writing ''PLP'' ?full) (gzip_open_w ?full w0))"
    by (auto simp: write_popscle_pileup_cel_full_filename_def Let_def
          split: prod.splits sum.splits)
  have "files w0 = files w"
    using rd by (rule read_cel_parts_files)
  then have "map_of (files w1) = (map_of (files w))(?full \<mapsto> gzip_compress L b)"
    by (simp add: w1 gzip_close_def gzip_open_w_def map_of_write_file)
  with ne show ?thesis by blast
qed

lemma cel_no_shards:
  "\<not> path_exists w (cel_full_filename f) \<Longrightarrow> sorted_glob w prefix ''.pileup.cel.gz'' = [] \<Longrightarrow>
   write_popscle_pileup_cel_full_filename L prefix f w =
     (Inl (ValueError ''cannot concat empty list''), w)"
  by (simp add: write_popscle_pileup_cel_full_filename_def pl_concat_def)

lemma cel_merge_ok:
  assumes dest: "\<not> path_exists w (cel_full_filename f)"
    and parse: "list_all2 (\<lambda>p rows. read_csv (read_csv_cel L) w p = Inr rows)
                  (sorted_glob w prefix ''.pileup.cel.gz'') shards"
    and nonempty: "shards \<noteq> []"
  shows "\<exists>df w1. write_popscle_pileup_cel_full_filename L prefix f w = (Inr (Some df), w1)"
proof -
  let ?parts = "map (\<lambda>(i, rows). map (cel_part i) rows) (enumerate 0 shards)"
  from read_cel_parts_ok [OF parse, of 0 "[]"] obtain w1 where
    rd: "read_cel_parts L (sorted_glob w prefix ''.pileup.cel.gz'') 0 [] w = (Inr ?parts, w1)"
    by auto
  have ne: "?parts \<noteq> []"
    using nonempty by (simp add: enumerate_eq_zip)
  show ?thesis
    using dest rd ne by (simp add: write_popscle_pileup_cel_full_filename_def pl_concat_def Let_def)
qed

lemma plp_dest_exists:
  "path_exists w (plp_full_filename f) \<Longrightarrow>
   write_popscle_pileup_plp_full_filename L df prefix f w =
     (Inr False, eprint (msg_exists ''PLP'' (plp_full_filename f)) w)"
  by (simp add: write_popscle_pileup_plp_full_filename_def)

lemma plp_no_shards:
  assumes "\<not> path_exists w (plp_full_filename f)"
    and "\<not> glob_match (prefix @ ''.'') ''.pileup.plp.gz'' (plp_full_filename f)"
    and "sorted_glob w prefix ''.pileup.plp.gz'' = []"
  shows "\<exists>w'. write_popscle_pileup_plp_full_filename L df prefix f w = (Inr True, w') \<and>
           map_of (files w') = (map_of (files w))(plp_full_filename f \<mapsto> gzip_compress L [])"
proof -
  have "sorted_glob (gzip_open_w (plp_full_filename f) w) prefix ''.pileup.plp.gz'' = []"
    using assms(2,3) by (simp add: gzip_open_w_def sorted_glob_write_file)
  then show ?thesis
    using assms(1)
    by (simp add: write_popscle_pileup_plp_full_filename_def Let_def gzip_close_def
          gzip_open_w_def map_of_write_file)
qed

lemma umi_no_shards:
  assumes "\<not> path_exists w (umi_full_filename f)"
    and "\<not> glob_match (prefix @ ''.'') ''.pileup.umi.gz'' (umi_full_filename f)"
    and "sorted_glob w prefix ''.pileup.umi.gz'' = []"
  shows "\<exists>w'. write_popscle_pileup_umi_full_filename L prefix f w = (Inr True, w') \<and>
           map_of (files w') = (map_of (files w))(umi_full_filename f \<mapsto> gzip_compress L [])"
proof -
  have "sorted_glob (gzip_open_w (umi_full_filename f) w) prefix ''.pileup.umi.gz'' = []"
    using assms(2,3) by (simp add: gzip_open_w_def sorted_glob_write_file)
  then show ?thesis
    using assms(1)
    by (simp add: write_popscle_pileup_umi_full_filename_def Let_def gzip_close_def
          gzip_open_w_def map_of_write_file)
qed

lemma var_no_shards:
  "\<not> path_exists w (var_full_filename f) \<Longrightarrow> sorted_glob w prefix ''.pileup.var.gz'' = [] \<Longrightarrow>
   write_popscle_pileup_var_full_filename L prefix f w = (Inr False, w)"
  by (simp add: write_popscle_pileup_var_full_filename_def)


lemma path_exists_map_of: "path_exists w p \<longleftrightarrow> map_of (files w) p \<noteq> None"
  by (simp add: path_exists_def)

lemma read_file_map_of:
  "read_file w p = (case map_of (files w) p of None \<Rightarrow> Inl (FileNotFoundError p) | Some b \<Rightarrow> Inr b)"
  by (simp add: read_file_def)


subsection \<open>Complete lines\<close>

lemma lines_acc_complete:
  "nl \<notin> set body \<Longrightarrow> lines_acc acc (body @ nl # rest) = (acc @ body @ [nl]) # lines_acc [] rest"
  by (induction body arbitrary: acc) (auto simp add: nl_def)

lemma text_lines_concat:
  "list_all complete_line ls \<Longrightarrow> text_lines (concat ls) = ls"
proof (induction ls)
  case Nil
  show ?case
    by (simp add: text_lines_def)
next
  case (Cons l ls)
  then have c: "l \<noteq> []" "last l = nl" and body: "nl \<notin> set (butlast l)"
    and rest: "lines_acc [] (concat ls) = ls"
    by (simp_all add: complete_line_def text_lines_def)
  from c have l: "l = butlast l @ [nl]"
    using append_butlast_last_id [of l] by simp
  have "text_lines (concat (l # ls)) = lines_acc [] (butlast l @ nl # concat ls)"
    unfolding text_lines_def by (subst l) simp
  also have "\<dots> = ([] @ butlast l @ [nl]) # lines_acc [] (concat ls)"
    by (rule lines_acc_complete [OF body])
  finally show ?case
    using l rest by simp
qed

lemma nl_notin_str_nat: "nl \<notin> set (str_nat k)"
proof (induction k rule: str_nat.induct)
  case (1 n)
  have d: "digit d \<noteq> nl" if "d < 10" for d
  proof -
    from that have "digit d \<in> set ''0123456789''"
      unfolding digit_def by (intro nth_mem) simp
    then show ?thesis
      by (auto simp add: nl_def)
  qed
  show ?case
  proof (cases "n < 10")
    case True
    then show ?thesis
      using d [of n] by (subst str_nat.simps) auto
  next
    case False
    with 1 have "nl \<notin> set (str_nat (n div 10))"
      by simp
    moreover have "digit (n mod 10) \<noteq> nl"
      by (rule d) simp
    ultimately show ?thesis
      using False by (subst str_nat.simps) auto
  qed
qed

lemma complete_renumbered:
  assumes c: "complete_line l" and t: "tab \<in> set l"
  shows "complete_line (renumbered k l)"
proof -
  let ?h = "takeWhile (\<lambda>x. x \<noteq> tab) l"
  let ?d = "dropWhile (\<lambda>x. x \<noteq> tab) l"
  from t have ne: "?d \<noteq> []"
    by auto
  from ne have "last (?h @ ?d) = last ?d"
    by (rule last_appendR)
  with c have lst: "last ?d = nl"
    by (simp add: complete_line_def)
  from ne have "butlast l = ?h @ butlast ?d"
    using butlast_append [of ?h ?d] by auto
  with c have "nl \<notin> set (butlast ?d)"
    by (simp add: complete_line_def)
  with ne lst show ?thesis
    by (auto simp add: complete_line_def renumbered_def butlast_append nl_notin_str_nat)
qed

lemma umi_records_lines:
  assumes c: "list_all complete_line lines" and t: "\<forall>line \<in> set lines. tab \<in> set line"
  shows "text_lines (concat (umi_records lines)) = umi_records lines"
proof (rule text_lines_concat)
  show "list_all complete_line (umi_records lines)"
    using c t
    by (auto simp add: umi_records_def list_all_iff in_set_enumerate_eq intro!: complete_renumbered)
qed
section \<open>Facts about the example inputs\<close>

lemma str_nat_digits: "str_nat 0 = ''0''" "str_nat (Suc 0) = ''1''" "str_nat (Suc (Suc 0)) = ''2''"
  by (simp_all add: str_nat.simps digit_def)

lemma toy_lib_simps [simp]:
  "read_csv_cel toy_lib = toy_read toy_cel_row"
  "read_csv_plp toy_lib = toy_read toy_plp_row"
  "read_csv_var toy_lib = toy_read toy_var_row"
  "gzip_compress toy_lib b = ''z'' @ b"
  "gzip_text_lines toy_lib b = (lines_acc [] b, None)"
  by (simp_all add: toy_lib_def text_lines_def)

lemma umi_glob:
  "sorted_glob umi_world ''s'' ''.pileup.umi.gz'' = [''s.0.pileup.umi.gz'', ''s.1.pileup.umi.gz'']"
  by (simp add: sorted_glob_def glob_def glob_match_def umi_world_def)


lemma tab_not_letter [simp]:
  "tab \<noteq> CHR ''7''" "tab \<noteq> CHR ''9''" "tab \<noteq> CHR ''0''" "tab \<noteq> CHR ''A''" "tab \<noteq> CHR ''B''"
  "tab \<noteq> CHR ''C''" "tab \<noteq> CHR ''X''" "tab \<noteq> CHR ''Y''" "tab \<noteq> CHR ''Z''" "tab \<noteq> nl"
  "CHR ''7'' \<noteq> tab" "CHR ''9'' \<noteq> tab" "CHR ''0'' \<noteq> tab" "CHR ''X'' \<noteq> tab"
  "CHR ''Y'' \<noteq> tab" "CHR ''Z'' \<noteq> tab" "nl \<noteq> tab"
  by (simp_all add: tab_def nl_def)

lemma nl_simps [simp]:
  "(CHR ''7'' = CHR 0x0A) = False" "(CHR ''9'' = CHR 0x0A) = False" "(CHR ''0'' = CHR 0x0A) = False"
  "(CHR ''A'' = CHR 0x0A) = False" "(CHR ''B'' = CHR 0x0A) = False" "(CHR ''C'' = CHR 0x0A) = False"
  "(CHR ''X'' = CHR 0x0A) = False" "(CHR ''Y'' = CHR 0x0A) = False" "(CHR ''Z'' = CHR 0x0A) = False"
  "(tab = CHR 0x0A) = False" "(nl = CHR 0x0A) = True"
  by (simp_all add: tab_def nl_def)

lemma var_glob:
  "sorted_glob var_world ''s'' ''.pileup.var.gz'' =
     [''s.0.pileup.var.gz'', ''s.1.pileup.var.gz'', ''s.2.pileup.var.gz'']"
  by (simp add: sorted_glob_def glob_def glob_match_def var_world_def)

lemma var_bad_glob:
  "sorted_glob var_bad_world ''s'' ''.pileup.var.gz'' = [''s.0.pileup.var.gz'', ''s.1.pileup.var.gz'']"
  by (simp add: sorted_glob_def glob_def glob_match_def var_bad_world_def)

lemma var_world_reads:
  "read_csv (toy_read toy_var_row) var_world ''s.0.pileup.var.gz'' = Inr (map toy_var_row (enumerate 0 ''abc''))"
  "read_csv (toy_read toy_var_row) var_world ''s.1.pileup.var.gz'' = Inr (map toy_var_row (enumerate 0 ''abcde''))"
  "read_csv (toy_read toy_var_row) var_world ''s.2.pileup.var.gz'' = Inr (map toy_var_row (enumerate 0 ''abcxy''))"
  by (simp_all add: read_csv_def read_file_def var_world_def toy_read_def)

lemma var_bad_world_reads:
  "read_csv (toy_read toy_var_row) var_bad_world ''s.0.pileup.var.gz'' = Inr (map toy_var_row (enumerate 0 ''abc''))"
  "read_csv (toy_read toy_var_row) var_bad_world ''s.1.pileup.var.gz'' = Inr (map toy_var_row (enumerate 0 ''abXde''))"
  by (simp_all add: read_csv_def read_file_def var_bad_world_def toy_read_def)

lemma var_world_run:
  "fst (var_parts toy_lib (sorted_glob var_world ''s'' ''.pileup.var.gz'')
          \<lparr>most_complete_df = None, most_complete_filename = None\<rparr> var_world) =
     Inr \<lparr>most_complete_df = Some (map toy_var_row (enumerate 0 ''abcde'')),
          most_complete_filename = Some ''s.1.pileup.var.gz''\<rparr>"
  unfolding var_glob
  by (simp add: var_world_reads var_step_def struct_eq_item_def df_getitem_def
        enumerate_eq_zip upt_rec toy_var_row_def)

lemma m_no_match:
  "\<not> glob_match (''s'' @ ''.'') ''.pileup.plp.gz'' (plp_full_filename ''m'')"
  "\<not> glob_match (''s'' @ ''.'') ''.pileup.umi.gz'' (umi_full_filename ''m'')"
  by (simp_all add: glob_match_def plp_full_filename_def umi_full_filename_def)

lemma cel_only_globs:
  "sorted_glob cel_only_world ''s'' ''.pileup.cel.gz'' = [''s.0.pileup.cel.gz'']"
  "sorted_glob cel_only_world ''s'' ''.pileup.plp.gz'' = []"
  "sorted_glob cel_only_world ''s'' ''.pileup.umi.gz'' = []"
  "sorted_glob cel_only_world ''s'' ''.pileup.var.gz'' = []"
  by (simp_all add: sorted_glob_def glob_def glob_match_def cel_only_world_def)

lemma cel_only_check: "\<not> fst (check_outputs ''m'' cel_only_world)"
  by (simp add: check_outputs_fst path_exists_def cel_only_world_def cel_full_filename_def
        plp_full_filename_def umi_full_filename_def var_full_filename_def)

lemma cel_only_merge:
  "\<exists>df w1. write_popscle_pileup_cel_full_filename toy_lib ''s'' ''m'' cel_only_world = (Inr (Some df), w1)"
proof (rule cel_merge_ok)
  show "\<not> path_exists cel_only_world (cel_full_filename ''m'')"
    by (simp add: path_exists_def cel_only_world_def cel_full_filename_def)
  show "list_all2 (\<lambda>p rows. read_csv (read_csv_cel toy_lib) cel_only_world p = Inr rows)
          (sorted_glob cel_only_world ''s'' ''.pileup.cel.gz'') [map toy_cel_row (enumerate 0 ''ab'')]"
    unfolding cel_only_globs
    by (simp add: read_csv_def read_file_def cel_only_world_def toy_read_def)
  show "[map toy_cel_row (enumerate 0 ''ab'')] \<noteq> []"
    by simp
qed

lemma plp_taken_globs:
  "sorted_glob plp_taken_world ''s'' ''.pileup.cel.gz'' = [''s.0.pileup.cel.gz'']"
  "sorted_glob plp_taken_world ''s'' ''.pileup.umi.gz'' = []"
  "sorted_glob plp_taken_world ''s'' ''.pileup.var.gz'' = []"
  by (simp_all add: sorted_glob_def glob_def glob_match_def plp_taken_world_def)

lemma plp_taken_merge:
  "\<exists>df w1. write_popscle_pileup_cel_full_filename toy_lib ''s'' ''m'' plp_taken_world = (Inr (Some df), w1)"
proof (rule cel_merge_ok)
  show "\<not> path_exists plp_taken_world (cel_full_filename ''m'')"
    by (simp add: path_exists_def plp_taken_world_def cel_full_filename_def)
  show "list_all2 (\<lambda>p rows. read_csv (read_csv_cel toy_lib) plp_taken_world p = Inr rows)
          (sorted_glob plp_taken_world ''s'' ''.pileup.cel.gz'') [map toy_cel_row (enumerate 0 ''ab'')]"
    unfolding plp_taken_globs
    by (simp add: read_csv_def read_file_def plp_taken_world_def toy_read_def)
  show "[map toy_cel_row (enumerate 0 ''ab'')] \<noteq> []"
    by simp
qed

lemma umi_tabless_globs:
  "sorted_glob umi_tabless_world ''s'' ''.pileup.cel.gz'' = [''s.0.pileup.cel.gz'']"
  "sorted_glob umi_tabless_world ''s'' ''.pileup.plp.gz'' = []"
  "sorted_glob umi_tabless_world ''s'' ''.pileup.umi.gz'' = [''s.0.pileup.umi.gz'']"
  by (simp_all add: sorted_glob_def glob_def glob_match_def umi_tabless_world_def)

lemma umi_tabless_check: "\<not> fst (check_outputs ''m'' umi_tabless_world)"
  by (simp add: check_outputs_fst path_exists_def umi_tabless_world_def cel_full_filename_def
        plp_full_filename_def umi_full_filename_def var_full_filename_def)

lemma umi_tabless_merge:
  "\<exists>df w1. write_popscle_pileup_cel_full_filename toy_lib ''s'' ''m'' umi_tabless_world = (Inr (Some df), w1)"
proof (rule cel_merge_ok)
  show "\<not> path_exists umi_tabless_world (cel_full_filename ''m'')"
    by (simp add: path_exists_def umi_tabless_world_def cel_full_filename_def)
  show "list_all2 (\<lambda>p rows. read_csv (read_csv_cel toy_lib) umi_tabless_world p = Inr rows)
          (sorted_glob umi_tabless_world ''s'' ''.pileup.cel.gz'') [map toy_cel_row (enumerate 0 ''ab'')]"
    unfolding umi_tabless_globs
    by (simp add: read_csv_def read_file_def umi_tabless_world_def toy_read_def)
  show "[map toy_cel_row (enumerate 0 ''ab'')] \<noteq> []"
    by simp
qed

section \<open>Properties\<close>

text \<open>
  C1. When the droplet destination does not exist and every droplet shard, taken in
  sorted file name order, parses, and there is at least one shard, the droplet merge
  returns a frame whose rows are the rows of the shards in that order, each tagged with
  its shard index as \<open>PARTITION\<close>, and whose \<open>DROPLET_ID\<close> column is \<open>0, 1, ...\<close>, one
  less than the number of rows being the last: the id of a row is its position in the
  concatenation, whatever its barcode or partition. The written file carries the same ids.
\<close>

theorem droplet_merge_global_ids:
  assumes dest: "\<not> path_exists w (cel_full_filename full_prefix)"
    and parse: "list_all2 (\<lambda>p rows. read_csv (read_csv_cel L) w p = Inr rows)
                  (sorted_glob w prefix ''.pileup.cel.gz'') shards"
    and nonempty: "shards \<noteq> []"
  shows "\<exists>df w'.
     write_popscle_pileup_cel_full_filename L prefix full_prefix w = (Inr (Some df), w') \<and>
     sorted (sorted_glob w prefix ''.pileup.cel.gz'') \<and>
     map cel_part_row.truncate df =
       concat (map (\<lambda>(i, rows). map (cel_part i) rows) (enumerate 0 shards)) \<and>
     map DROPLET_ID df = [0..<length (concat shards)] \<and>
     read_file w' (cel_full_filename full_prefix) =
       Inr (gzip_compress L (write_csv_cel L True (map cel_select df))) \<and>
     map tsv_DROPLET_ID (map cel_select df) = map int [0..<length (concat shards)]"
proof -
  let ?parts = "map (\<lambda>(i, rows). map (cel_part i) rows) (enumerate 0 shards)"
  let ?df = "with_row_count (concat ?parts)"
  from read_cel_parts_ok [OF parse, of 0 "[]"] obtain w1 where
    rd: "read_cel_parts L (sorted_glob w prefix ''.pileup.cel.gz'') 0 [] w = (Inr ?parts, w1)"
    by auto
  have ne: "?parts \<noteq> []"
    using nonempty by (simp add: enumerate_eq_zip)
  have len: "length (concat ?parts) = length (concat shards)"
    by (rule length_concat_parts)
  let ?full = "cel_full_filename full_prefix"
  let ?w3 = "gzip_close L ?full (write_csv_cel L True (map cel_select ?df))
               (eprint (msg_writing ''PLP'' ?full) (gzip_open_w ?full w1))"
  have run: "write_popscle_pileup_cel_full_filename L prefix full_prefix w = (Inr (Some ?df), ?w3)"
    using dest rd ne by (simp add: write_popscle_pileup_cel_full_filename_def pl_concat_def Let_def)
  have ids: "map DROPLET_ID ?df = [0..<length (concat shards)]"
    by (simp add: DROPLET_ID_with_row_count len)
  have "map tsv_DROPLET_ID (map cel_select ?df) = map int (map DROPLET_ID ?df)"
    by (simp add: cel_select_def)
  with ids have out: "map tsv_DROPLET_ID (map cel_select ?df) = map int [0..<length (concat shards)]"
    by simp
  have written: "read_file ?w3 ?full = Inr (gzip_compress L (write_csv_cel L True (map cel_select ?df)))"
    by (simp add: gzip_close_def read_file_write_file)
  show ?thesis
    using run ids out written sorted_sorted_glob truncate_with_row_count by blast
qed

lemma cel_glob:
  "sorted_glob cel_world ''s'' ''.pileup.cel.gz'' =
     [''s.0.pileup.cel.gz'', ''s.1.pileup.cel.gz'', ''s.2.pileup.cel.gz'']"
  by (simp add: sorted_glob_def glob_def glob_match_def cel_world_def)

theorem droplet_merge_global_ids_witness:
  "\<exists>df w'.
     write_popscle_pileup_cel_full_filename toy_lib ''s'' ''m'' cel_world = (Inr (Some df), w') \<and>
     map DROPLET_ID df = [0, 1, 2, 3, 4, 5] \<and>
     map PARTITION df = [0, 0, 1, 1, 1, 2] \<and>
     map BARCODE df = [''a'', ''b'', ''c'', ''d'', ''e'', ''f'']"
proof -
  let ?shards = "[map toy_cel_row [(0, CHR ''a''), (1, CHR ''b'')],
                  map toy_cel_row [(0, CHR ''c''), (1, CHR ''d''), (2, CHR ''e'')],
                  map toy_cel_row [(0, CHR ''f'')]]"
  have dest: "\<not> path_exists cel_world (cel_full_filename ''m'')"
    by (simp add: path_exists_def cel_world_def cel_full_filename_def)
  have parse: "list_all2 (\<lambda>p rows. read_csv (read_csv_cel toy_lib) cel_world p = Inr rows)
                 (sorted_glob cel_world ''s'' ''.pileup.cel.gz'') ?shards"
    unfolding cel_glob
    by (simp add: read_csv_def read_file_def cel_world_def toy_lib_def toy_read_def
          enumerate_eq_zip upt_rec numeral_2_eq_2)
  from droplet_merge_global_ids [OF dest parse] obtain df w' where
    run: "write_popscle_pileup_cel_full_filename toy_lib ''s'' ''m'' cel_world = (Inr (Some df), w')"
    and rows: "map cel_part_row.truncate df =
       concat (map (\<lambda>(i, rows). map (cel_part i) rows) (enumerate 0 ?shards))"
    and ids: "map DROPLET_ID df = [0..<length (concat ?shards)]"
    by auto
  have "map PARTITION df = map PARTITION (map cel_part_row.truncate df)"
    by (simp add: cel_part_row.truncate_def)
  then have p: "map PARTITION df = [0, 0, 1, 1, 1, 2]"
    unfolding rows by (simp add: cel_part_def)
  have "map BARCODE df = map BARCODE (map cel_part_row.truncate df)"
    by (simp add: cel_part_row.truncate_def)
  then have b: "map BARCODE df = [''a'', ''b'', ''c'', ''d'', ''e'', ''f'']"
    unfolding rows by (simp add: cel_part_def toy_cel_row_def)
  have d: "map DROPLET_ID df = [0, 1, 2, 3, 4, 5]"
    using ids by (simp add: upt_rec)
  show ?thesis
    by (rule exI [of _ df], rule exI [of _ w']) (simp only: run p b d simp_thms)
qed

text \<open>
  The SNP merge at a destination that the shard pattern does not match. When the
  destination does not exist, every SNP shard of the sorted glob parses, and no two rows of
  the droplet frame share the pair (\<open>PARTITION\<close>, \<open>DROPLET_ID_PARTITIONED\<close>), the merge
  succeeds and writes, shard by shard (a header on the first only), exactly the rows of the
  shard whose pair (shard index, droplet id) is in the correction table, the droplet id
  replaced by the global id the table gives for the pair. A row whose pair is not in the
  table is not written. Rows are compared as multisets: the order within a shard is the
  join's.
\<close>

lemma snp_merge_join:
  assumes dest: "\<not> path_exists w (plp_full_filename full_prefix)"
    and noalias: "\<not> glob_match (prefix @ ''.'') ''.pileup.plp.gz'' (plp_full_filename full_prefix)"
    and parse: "list_all2 (\<lambda>p rows. read_csv (read_csv_plp L) w p = Inr rows)
                  (sorted_glob w prefix ''.pileup.plp.gz'') shards"
    and unique: "distinct (map fst (correction_table cel_df))"
  shows "\<exists>w' emitted.
     write_popscle_pileup_plp_full_filename L cel_df prefix full_prefix w = (Inr True, w') \<and>
     length emitted = length shards \<and>
     read_file w' (plp_full_filename full_prefix) =
       Inr (gzip_compress L
             (concat (map (\<lambda>(i, rows). write_csv_plp L (i = 0) rows) (enumerate 0 emitted)))) \<and>
     (\<forall>i < length shards.
        mset (emitted ! i) =
          image_mset
            (\<lambda>r. r\<lparr>plp_DROPLET_ID :=
                      int (the (map_of (correction_table cel_df) (i, plp_DROPLET_ID r)))\<rparr>)
            (filter_mset (\<lambda>r. map_of (correction_table cel_df) (i, plp_DROPLET_ID r) \<noteq> None)
               (mset (shards ! i))))"
proof -
  let ?full = "plp_full_filename full_prefix"
  let ?names = "sorted_glob w prefix ''.pileup.plp.gz''"
  let ?w1 = "eprint (msg_writing ''PLP'' ?full) (gzip_open_w ?full w)"
  let ?g = "\<lambda>k rows. plp_join_select (map (plp_part k) rows) cel_df"
  let ?emitted = "map (\<lambda>(k, rows). ?g k rows) (enumerate 0 shards)"
  let ?out = "concat (map (\<lambda>(k, rows). write_csv_plp L (k = 0) (?g k rows)) (enumerate 0 shards))"
  have names1: "sorted_glob (gzip_open_w ?full w) prefix ''.pileup.plp.gz'' = ?names"
    using noalias by (simp add: gzip_open_w_def sorted_glob_write_file)
  have "list_all2 (\<lambda>p rows. read_csv (read_csv_plp L) ?w1 p = Inr rows) ?names shards"
  proof (rule list.rel_mono_strong [OF parse])
    fix p rows
    assume "p \<in> set ?names" and r: "read_csv (read_csv_plp L) w p = Inr rows"
    then have "p \<noteq> ?full"
      using dest sorted_glob_exists by blast
    then show "read_csv (read_csv_plp L) ?w1 p = Inr rows"
      using r by (simp add: gzip_open_w_def read_csv_write_file)
  qed
  from plp_parts_ok [OF this, of cel_df 0 "[]"] obtain w2 where
    loop: "plp_parts L cel_df ?names 0 [] ?w1 = ((None, ?out), w2)"
    by auto
  let ?w3 = "gzip_close L ?full ?out w2"
  have run: "write_popscle_pileup_plp_full_filename L cel_df prefix full_prefix w = (Inr True, ?w3)"
    using dest loop
    by (simp add: write_popscle_pileup_plp_full_filename_def Let_def names1)
  have out: "?out = concat (map (\<lambda>(i, rows). write_csv_plp L (i = 0) rows) (enumerate 0 ?emitted))"
    unfolding enumerate_map_index by (simp add: comp_def case_prod_unfold)
  have written: "read_file ?w3 ?full =
      Inr (gzip_compress L (concat (map (\<lambda>(i, rows). write_csv_plp L (i = 0) rows) (enumerate 0 ?emitted))))"
    by (simp add: gzip_close_def read_file_write_file out [symmetric])
  have rows: "\<forall>i < length shards.
        mset (?emitted ! i) =
          image_mset
            (\<lambda>r. r\<lparr>plp_DROPLET_ID :=
                      int (the (map_of (correction_table cel_df) (i, plp_DROPLET_ID r)))\<rparr>)
            (filter_mset (\<lambda>r. map_of (correction_table cel_df) (i, plp_DROPLET_ID r) \<noteq> None)
               (mset (shards ! i)))"
    by (simp add: nth_enumerate_eq plp_join_select_unique [OF unique])
  have len: "length ?emitted = length shards"
    by simp
  show ?thesis
    using run len written rows by blast
qed

lemma example_correction_table:
  "correction_table example_cel_df =
     [((0, 0), 0), ((0, 1), 1), ((1, 0), 2), ((1, 1), 3), ((1, 2), 4), ((2, 0), 5)]"
  by (simp add: correction_table_def example_cel_df_def with_row_count_def enumerate_eq_zip
        upt_rec add_row_count_def cel_part_def toy_cel_row_def)

lemma plp_glob:
  "sorted_glob plp_world ''s'' ''.pileup.plp.gz'' = [''s.0.pileup.plp.gz'', ''s.1.pileup.plp.gz'']"
  by (simp add: sorted_glob_def glob_def glob_match_def plp_world_def)

lemma snp_merge_join_example:
  "\<exists>w' emitted.
     write_popscle_pileup_plp_full_filename toy_lib example_cel_df ''s'' ''m'' plp_world = (Inr True, w') \<and>
     read_file w' ''m.pileup.plp.gz'' =
       Inr (gzip_compress toy_lib
             (concat (map (\<lambda>(i, rows). write_csv_plp toy_lib (i = 0) rows) (enumerate 0 emitted)))) \<and>
     mset (emitted ! 0) =
       {#\<lparr>plp_DROPLET_ID = 0, SNP_ID = 0, ALLELES = [], BASEQS = []\<rparr>,
         \<lparr>plp_DROPLET_ID = 1, SNP_ID = 1, ALLELES = [], BASEQS = []\<rparr>#} \<and>
     mset (emitted ! 1) = {#\<lparr>plp_DROPLET_ID = 4, SNP_ID = 0, ALLELES = [], BASEQS = []\<rparr>#}"
proof -
  let ?shards = "[map toy_plp_row [(0, CHR ''0''), (1, CHR ''1'')],
                  map toy_plp_row [(0, CHR ''2''), (1, CHR ''7'')]]"
  have dest: "\<not> path_exists plp_world (plp_full_filename ''m'')"
    by (simp add: path_exists_def plp_world_def plp_full_filename_def)
  have noalias: "\<not> glob_match (''s'' @ ''.'') ''.pileup.plp.gz'' (plp_full_filename ''m'')"
    by (simp add: glob_match_def plp_full_filename_def)
  have parse: "list_all2 (\<lambda>p rows. read_csv (read_csv_plp toy_lib) plp_world p = Inr rows)
                 (sorted_glob plp_world ''s'' ''.pileup.plp.gz'') ?shards"
    unfolding plp_glob
    by (simp add: read_csv_def read_file_def plp_world_def toy_lib_def toy_read_def
          enumerate_eq_zip upt_rec)
  have unique: "distinct (map fst (correction_table example_cel_df))"
    by (simp add: example_correction_table)
  from snp_merge_join [OF dest noalias parse unique] obtain w' emitted where
    run: "write_popscle_pileup_plp_full_filename toy_lib example_cel_df ''s'' ''m'' plp_world = (Inr True, w')"
    and written: "read_file w' (plp_full_filename ''m'') =
       Inr (gzip_compress toy_lib
             (concat (map (\<lambda>(i, rows). write_csv_plp toy_lib (i = 0) rows) (enumerate 0 emitted))))"
    and rows: "\<forall>i < length ?shards.
        mset (emitted ! i) =
          image_mset
            (\<lambda>r. r\<lparr>plp_DROPLET_ID :=
                      int (the (map_of (correction_table example_cel_df) (i, plp_DROPLET_ID r)))\<rparr>)
            (filter_mset (\<lambda>r. map_of (correction_table example_cel_df) (i, plp_DROPLET_ID r) \<noteq> None)
               (mset (?shards ! i)))"
    by blast
  from rows have r0: "mset (emitted ! 0) =
       {#\<lparr>plp_DROPLET_ID = 0, SNP_ID = 0, ALLELES = [], BASEQS = []\<rparr>,
         \<lparr>plp_DROPLET_ID = 1, SNP_ID = 1, ALLELES = [], BASEQS = []\<rparr>#}"
    by (simp add: example_correction_table toy_plp_row_def)
  from rows have r1: "mset (emitted ! 1) = {#\<lparr>plp_DROPLET_ID = 4, SNP_ID = 0, ALLELES = [], BASEQS = []\<rparr>#}"
    by (simp add: example_correction_table toy_plp_row_def)
  have name: "plp_full_filename ''m'' = ''m.pileup.plp.gz''"
    by (simp add: plp_full_filename_def)
  show ?thesis
    by (rule exI [of _ w'], rule exI [of _ emitted])
       (simp only: run r0 r1 written [unfolded name] simp_thms)
qed


text \<open>
  C2. The claim holds at a destination that the shard pattern does not match (the lemma
  above). The function creates its destination (line 122) before it lists the shards
  (line 129), so a destination \<^verbatim>\<open>s.-.pileup.plp.gz\<close> is listed with the shards of the input
  prefix \<^verbatim>\<open>s\<close>, sorts before them, and is read, still without a byte, as shard 0. Here the
  destination does not exist, the two shards parse and the pairs of the droplet frame are
  unique. With a reader that refuses a file of no bytes the merge ends with the reader's
  exception and no row is written. With a reader that takes it for a table of no rows the
  shards are numbered from 1: the two rows of the first shard are written with the global
  ids 2 and 3 of partition 1 (the table gives 0 and 1 for them), and the row of the second
  shard whose pair is in the table (global id 4) is not written.
\<close>

theorem snp_merge_reads_own_destination:
  "\<not> path_exists plp_world (plp_full_filename ''s.-'') \<and>
   list_all2 (\<lambda>p rows. read_csv (read_csv_plp strict_lib) plp_world p = Inr rows)
     (sorted_glob plp_world ''s'' ''.pileup.plp.gz'')
     [map toy_plp_row [(0, CHR ''0''), (1, CHR ''1'')], map toy_plp_row [(0, CHR ''2''), (1, CHR ''7'')]] \<and>
   distinct (map fst (correction_table example_cel_df)) \<and>
   sorted_glob (gzip_open_w (plp_full_filename ''s.-'') plp_world) ''s'' ''.pileup.plp.gz'' =
     [''s.-.pileup.plp.gz'', ''s.0.pileup.plp.gz'', ''s.1.pileup.plp.gz''] \<and>
   fst (write_popscle_pileup_plp_full_filename strict_lib example_cel_df ''s'' ''s.-'' plp_world) =
     Inl (LibraryError ''NoDataError'') \<and>
   read_file (snd (write_popscle_pileup_plp_full_filename strict_lib example_cel_df ''s'' ''s.-'' plp_world))
       (plp_full_filename ''s.-'') =
     Inr (gzip_compress strict_lib []) \<and>
   fst (write_popscle_pileup_plp_full_filename toy_lib example_cel_df ''s'' ''s.-'' plp_world) = Inr True \<and>
   read_file (snd (write_popscle_pileup_plp_full_filename toy_lib example_cel_df ''s'' ''s.-'' plp_world))
       (plp_full_filename ''s.-'') =
     Inr (gzip_compress toy_lib
           (write_csv_plp toy_lib True [] @
            write_csv_plp toy_lib False
              [\<lparr>plp_DROPLET_ID = 2, SNP_ID = 0, ALLELES = [], BASEQS = []\<rparr>,
               \<lparr>plp_DROPLET_ID = 3, SNP_ID = 1, ALLELES = [], BASEQS = []\<rparr>] @
            write_csv_plp toy_lib False []))"
proof -
  let ?full = "''s.-.pileup.plp.gz''"
  let ?w0 = "gzip_open_w ?full plp_world"
  let ?w1 = "eprint (msg_writing ''PLP'' ?full) ?w0"
  have name: "plp_full_filename ''s.-'' = ?full"
    by (simp add: plp_full_filename_def)
  have dest: "\<not> path_exists plp_world ?full"
    by (simp add: path_exists_def plp_world_def)
  have parse: "list_all2 (\<lambda>p rows. read_csv (read_csv_plp strict_lib) plp_world p = Inr rows)
     (sorted_glob plp_world ''s'' ''.pileup.plp.gz'')
     [map toy_plp_row [(0, CHR ''0''), (1, CHR ''1'')], map toy_plp_row [(0, CHR ''2''), (1, CHR ''7'')]]"
    unfolding plp_glob
    by (simp add: read_csv_def read_file_def plp_world_def strict_lib_def toy_read_def
          enumerate_eq_zip upt_rec)
  have unique: "distinct (map fst (correction_table example_cel_df))"
    by (simp add: example_correction_table)
  have opened: "files ?w0 =
      [(''s.1.pileup.plp.gz'', ''27''), (''s.0.pileup.plp.gz'', ''01''), (?full, [])]"
    by (simp add: gzip_open_w_def write_file_def plp_world_def)
  have names: "sorted_glob ?w0 ''s'' ''.pileup.plp.gz'' =
      [?full, ''s.0.pileup.plp.gz'', ''s.1.pileup.plp.gz'']"
    unfolding sorted_glob_def glob_def opened
    by (simp add: glob_match_def)
  have names1: "sorted_glob ?w1 ''s'' ''.pileup.plp.gz'' =
      [?full, ''s.0.pileup.plp.gz'', ''s.1.pileup.plp.gz'']"
    using names by (simp add: sorted_glob_def glob_def eprint_def)
  have reads: "read_file w ?full = Inr []" "read_file w ''s.0.pileup.plp.gz'' = Inr ''01''"
      "read_file w ''s.1.pileup.plp.gz'' = Inr ''27''" if "files w = files ?w0" for w
    unfolding read_file_def that opened by simp_all
  have strict: "plp_parts strict_lib example_cel_df [?full, ''s.0.pileup.plp.gz'', ''s.1.pileup.plp.gz''] 0 [] ?w1 =
      ((Some (LibraryError ''NoDataError''), []), eprint (msg_reading ''PLP'' ?full) ?w1)"
    by (simp add: read_csv_def reads eprint_def strict_lib_def)
  have run_strict: "write_popscle_pileup_plp_full_filename strict_lib example_cel_df ''s'' ''s.-'' plp_world =
      (Inl (LibraryError ''NoDataError''),
       gzip_close strict_lib ?full [] (eprint (msg_reading ''PLP'' ?full) ?w1))"
    unfolding write_popscle_pileup_plp_full_filename_def Let_def name names1 strict
    using dest by simp
  let ?rows0 = "map toy_plp_row [(0, CHR ''0''), (1, CHR ''1'')]"
  let ?rows1 = "map toy_plp_row [(0, CHR ''2''), (1, CHR ''7'')]"
  have frame: "example_cel_df =
      map (\<lambda>(p, k, c, g). \<lparr>DROPLET_ID_PARTITIONED = k, BARCODE = [c], NUM_READ = 0, NUM_UMI = 0,
              NUM_UMIwSNP = 0, NUM_SNP = 0, PARTITION = p, DROPLET_ID = g\<rparr>)
        [(0, 0, CHR ''a'', 0), (0, 1, CHR ''b'', 1), (1, 0, CHR ''c'', 2), (1, 1, CHR ''d'', 3),
         (1, 2, CHR ''e'', 4), (2, 0, CHR ''f'', 5)]"
    by (simp add: example_cel_df_def with_row_count_def enumerate_eq_zip upt_rec
          add_row_count_def cel_part_def toy_cel_row_def)
  have j0: "plp_join_select (map (plp_part 0) []) example_cel_df = []"
    by (simp add: plp_join_select_def)
  have j1: "plp_join_select (map (plp_part 1) ?rows0) example_cel_df =
      [\<lparr>plp_DROPLET_ID = 2, SNP_ID = 0, ALLELES = [], BASEQS = []\<rparr>,
       \<lparr>plp_DROPLET_ID = 3, SNP_ID = 1, ALLELES = [], BASEQS = []\<rparr>]"
    unfolding frame by (simp add: plp_join_select_def plp_part_def toy_plp_row_def)
  have j2: "plp_join_select (map (plp_part 2) ?rows1) example_cel_df = []"
    unfolding frame by (simp add: plp_join_select_def plp_part_def toy_plp_row_def)
  have "list_all2 (\<lambda>p rows. read_csv (read_csv_plp toy_lib) ?w1 p = Inr rows)
          [?full, ''s.0.pileup.plp.gz'', ''s.1.pileup.plp.gz''] [[], ?rows0, ?rows1]"
    by (simp add: read_csv_def reads eprint_def toy_read_def enumerate_eq_zip upt_rec)
  note ok = plp_parts_ok [OF this, of example_cel_df 0 "[]"]
  obtain w2 where
    loop: "plp_parts toy_lib example_cel_df [?full, ''s.0.pileup.plp.gz'', ''s.1.pileup.plp.gz''] 0 [] ?w1 =
       ((None, write_csv_plp toy_lib True [] @
            write_csv_plp toy_lib False
              [\<lparr>plp_DROPLET_ID = 2, SNP_ID = 0, ALLELES = [], BASEQS = []\<rparr>,
               \<lparr>plp_DROPLET_ID = 3, SNP_ID = 1, ALLELES = [], BASEQS = []\<rparr>] @
            write_csv_plp toy_lib False []), w2)"
  proof -
    let ?W = "write_csv_plp toy_lib"
    let ?J = "\<lambda>k rows. plp_join_select (map (plp_part k) rows) example_cel_df"
    have out: "[] @ concat (map (\<lambda>(k, rows). ?W (k = 0) (?J k rows)) (enumerate 0 [[], ?rows0, ?rows1])) =
        ?W True (?J 0 []) @ ?W False (?J 1 ?rows0) @ ?W False (?J 2 ?rows1)"
      by (simp add: enumerate_eq_zip upt_rec numeral_2_eq_2)
    from ok obtain w2 where
      "plp_parts toy_lib example_cel_df [?full, ''s.0.pileup.plp.gz'', ''s.1.pileup.plp.gz''] 0 [] ?w1 =
         ((None, [] @ concat (map (\<lambda>(k, rows). ?W (k = 0) (?J k rows)) (enumerate 0 [[], ?rows0, ?rows1]))), w2)"
      by blast
    then have "plp_parts toy_lib example_cel_df [?full, ''s.0.pileup.plp.gz'', ''s.1.pileup.plp.gz''] 0 [] ?w1 =
       ((None, write_csv_plp toy_lib True [] @
            write_csv_plp toy_lib False
              [\<lparr>plp_DROPLET_ID = 2, SNP_ID = 0, ALLELES = [], BASEQS = []\<rparr>,
               \<lparr>plp_DROPLET_ID = 3, SNP_ID = 1, ALLELES = [], BASEQS = []\<rparr>] @
            write_csv_plp toy_lib False []), w2)"
      unfolding out j0 j1 j2 .
    then show ?thesis
      by (rule that)
  qed
  have run_toy: "write_popscle_pileup_plp_full_filename toy_lib example_cel_df ''s'' ''s.-'' plp_world =
      (Inr True,
       gzip_close toy_lib ?full
         (write_csv_plp toy_lib True [] @
            write_csv_plp toy_lib False
              [\<lparr>plp_DROPLET_ID = 2, SNP_ID = 0, ALLELES = [], BASEQS = []\<rparr>,
               \<lparr>plp_DROPLET_ID = 3, SNP_ID = 1, ALLELES = [], BASEQS = []\<rparr>] @
            write_csv_plp toy_lib False []) w2)"
    unfolding write_popscle_pileup_plp_full_filename_def Let_def name names1 loop
    using dest by simp
  show ?thesis
    unfolding name run_strict run_toy fst_conv snd_conv
    by (intro conjI dest parse unique names)
       (simp_all only: gzip_close_def read_file_write_file refl if_True)
qed
text \<open>
  C3. When every variant shard of the sorted glob parses, there is at least one, and the
  loop of the reconciliation ends without an exception (every boundary check it made passed),
  the shard it has selected has the largest row count of all shards, and every shard before
  it in the sorted order has strictly fewer rows: among the shards of largest row count it
  is the first.
\<close>

theorem var_selects_first_largest:
  assumes parse: "list_all2 (\<lambda>p df. read_csv (read_csv_var L) w p = Inr df)
                    (sorted_glob w prefix ''.pileup.var.gz'') shards"
    and nonempty: "shards \<noteq> []"
    and pass: "var_parts L (sorted_glob w prefix ''.pileup.var.gz'')
                 \<lparr>most_complete_df = None, most_complete_filename = None\<rparr> w = (Inr s, w1)"
  shows "\<exists>k < length shards.
           most_complete_filename s = Some (sorted_glob w prefix ''.pileup.var.gz'' ! k) \<and>
           most_complete_df s = Some (shards ! k) \<and>
           (\<forall>j < length shards. length (shards ! j) \<le> length (shards ! k)) \<and>
           (\<forall>j < k. length (shards ! j) < length (shards ! k))"
proof -
  let ?names = "sorted_glob w prefix ''.pileup.var.gz''"
  from parse nonempty obtain p ps df rest where names: "?names = p # ps"
    and sh: "shards = df # rest"
    and r: "read_csv (read_csv_var L) w p = Inr df"
    and rest: "list_all2 (\<lambda>p df. read_csv (read_csv_var L) w p = Inr df) ps rest"
    by (cases shards) (auto simp: list_all2_Cons2)
  let ?w1 = "eprint (msg_reading ''VAR'' p) w"
  let ?s1 = "\<lparr>most_complete_df = Some df, most_complete_filename = Some p\<rparr>"
  have rest1: "list_all2 (\<lambda>p df. read_csv (read_csv_var L) ?w1 p = Inr df) ps rest"
    using rest by simp
  have run: "var_parts L ps ?s1 ?w1 = (Inr s, w1)"
    using pass r unfolding names by (simp add: var_step_None)
  have c1: "most_complete_df ?s1 = Some df" by simp
  from var_parts_select [OF rest1 run c1] show ?thesis
  proof
    assume a: "s = ?s1 \<and> (\<forall>j < length rest. length (rest ! j) \<le> length df)"
    have "0 < length shards" by (simp add: sh)
    moreover have "most_complete_filename s = Some (?names ! 0)" "most_complete_df s = Some (shards ! 0)"
      using a by (simp_all add: sh names)
    moreover have "\<forall>j < length shards. length (shards ! j) \<le> length (shards ! 0)"
      using a by (auto simp: sh nth_Cons split: nat.splits)
    ultimately show ?thesis by blast
  next
    assume "\<exists>k < length rest.
            most_complete_df s = Some (rest ! k) \<and> most_complete_filename s = Some (ps ! k) \<and>
            length df < length (rest ! k) \<and>
            (\<forall>j < length rest. length (rest ! j) \<le> length (rest ! k)) \<and>
            (\<forall>j < k. length (rest ! j) < length (rest ! k))"
    then obtain k where k: "k < length rest"
      "most_complete_df s = Some (rest ! k)" "most_complete_filename s = Some (ps ! k)"
      "length df < length (rest ! k)"
      "\<forall>j < length rest. length (rest ! j) \<le> length (rest ! k)"
      "\<forall>j < k. length (rest ! j) < length (rest ! k)"
      by blast
    have "Suc k < length shards" using k by (simp add: sh)
    moreover have "most_complete_filename s = Some (?names ! Suc k)"
      "most_complete_df s = Some (shards ! Suc k)"
      using k by (simp_all add: sh names)
    moreover have "\<forall>j < length shards. length (shards ! j) \<le> length (shards ! Suc k)"
      using k by (auto simp: sh nth_Cons split: nat.splits)
    moreover have "\<forall>j < Suc k. length (shards ! j) < length (shards ! Suc k)"
      using k by (auto simp: sh nth_Cons split: nat.splits)
    ultimately show ?thesis by blast
  qed
qed

theorem var_selects_first_largest_witness:
  "\<exists>s w1.
     var_parts toy_lib (sorted_glob var_world ''s'' ''.pileup.var.gz'')
       \<lparr>most_complete_df = None, most_complete_filename = None\<rparr> var_world = (Inr s, w1) \<and>
     most_complete_filename s = Some ''s.1.pileup.var.gz''"
proof -
  let ?names = "sorted_glob var_world ''s'' ''.pileup.var.gz''"
  let ?shards = "[map toy_var_row (enumerate 0 ''abc''), map toy_var_row (enumerate 0 ''abcde''),
                  map toy_var_row (enumerate 0 ''abcxy'')]"
  obtain r w1 where run: "var_parts toy_lib ?names
       \<lparr>most_complete_df = None, most_complete_filename = None\<rparr> var_world = (r, w1)"
    by (cases "var_parts toy_lib ?names
       \<lparr>most_complete_df = None, most_complete_filename = None\<rparr> var_world") auto
  with var_world_run obtain s where pass: "var_parts toy_lib ?names
       \<lparr>most_complete_df = None, most_complete_filename = None\<rparr> var_world = (Inr s, w1)"
    by auto
  have parse: "list_all2 (\<lambda>p df. read_csv (read_csv_var toy_lib) var_world p = Inr df) ?names ?shards"
    unfolding var_glob by (simp add: var_world_reads)
  from var_selects_first_largest [OF parse _ pass] obtain k where k: "k < length ?shards"
    "most_complete_filename s = Some (?names ! k)"
    "\<forall>j < length ?shards. length (?shards ! j) \<le> length (?shards ! k)"
    "\<forall>j < k. length (?shards ! j) < length (?shards ! k)"
    by blast
  from k(1) consider "k = 0" | "k = 1" | "k = 2"
    by (auto simp: less_Suc_eq numeral_3_eq_3)
  then have "k = 1"
  proof cases
    case 1
    from k(3) [rule_format, of 1] have "length (?shards ! 1) \<le> length (?shards ! k)" by simp
    with 1 show ?thesis by simp
  next
    case 2
    then show ?thesis .
  next
    case 3
    with k(4) [rule_format, of 1] have "length (?shards ! 1) < length (?shards ! k)" by simp
    with 3 show ?thesis by simp
  qed
  with k(2) have "most_complete_filename s = Some ''s.1.pileup.var.gz''"
    by (simp add: var_glob)
  with pass show ?thesis by blast
qed

text \<open>
  The boundary check of the loop (lines 272 to 287), with a candidate in hand and the next
  shard read. If the shard has more rows than the candidate, the frames
  \<^verbatim>\<open>[candidate height - 1]\<close> of the two are compared; when they are equal the loop goes on
  with the shard as candidate, when they differ the loop ends with an exception. With a
  candidate of at least one row these frames are the rows at position (row count of the
  candidate - 1), they differ exactly when some field of the two rows differs, and the
  exception is the \<^verbatim>\<open>AssertionError\<close> of line 275. If the shard has no more rows than the
  candidate, the loop goes on with the state unchanged: nothing is compared. An exception
  of the loop is the exception the function ends with; \<open>main_merge\<close> turns it into the
  uncaught exception of the run.
\<close>

lemma var_boundary_check:
  assumes cur: "most_complete_df s = Some cand"
    and rd: "read_csv (read_csv_var L) w p = Inr df"
  shows
    "(length cand < length df \<longrightarrow>
        (df_getitem cand (int (length cand) - 1) = df_getitem df (int (length cand) - 1) \<longrightarrow>
           var_parts L (p # ps) s w =
             var_parts L ps \<lparr>most_complete_df = Some df, most_complete_filename = Some p\<rparr>
               (eprint (msg_reading ''VAR'' p) w)) \<and>
        (df_getitem cand (int (length cand) - 1) \<noteq> df_getitem df (int (length cand) - 1) \<longrightarrow>
           (\<exists>e. var_parts L (p # ps) s w = (Inl e, eprint (msg_reading ''VAR'' p) w))) \<and>
        (cand \<noteq> [] \<longrightarrow>
           df_getitem cand (int (length cand) - 1) = [cand ! (length cand - 1)] \<and>
           df_getitem df (int (length cand) - 1) = [df ! (length cand - 1)] \<and>
           (\<not> (var_SNP_ID (cand ! (length cand - 1)) = var_SNP_ID (df ! (length cand - 1)) \<and>
               CHROM (cand ! (length cand - 1)) = CHROM (df ! (length cand - 1)) \<and>
               POS (cand ! (length cand - 1)) = POS (df ! (length cand - 1)) \<and>
               REF (cand ! (length cand - 1)) = REF (df ! (length cand - 1)) \<and>
               ALT (cand ! (length cand - 1)) = ALT (df ! (length cand - 1)) \<and>
               AF (cand ! (length cand - 1)) = AF (df ! (length cand - 1))) \<longrightarrow>
            var_parts L (p # ps) s w =
              (Inl (AssertionError
                     ''SNP_IDs do not match between different popscle dsc pileup var files.''),
               eprint (msg_reading ''VAR'' p) w)))) \<and>
     (length df \<le> length cand \<longrightarrow>
        var_parts L (p # ps) s w = var_parts L ps s (eprint (msg_reading ''VAR'' p) w)) \<and>
     (\<forall>e w0 w1 prefix full_prefix.
        \<not> path_exists w0 (var_full_filename full_prefix) \<and>
        var_parts L (sorted_glob w0 prefix ''.pileup.var.gz'')
          \<lparr>most_complete_df = None, most_complete_filename = None\<rparr> w0 = (Inl e, w1) \<longrightarrow>
        write_popscle_pileup_var_full_filename L prefix full_prefix w0 = (Inl e, w1))"
proof (intro conjI impI allI)
  assume "length df \<le> length cand"
  then show "var_parts L (p # ps) s w = var_parts L ps s (eprint (msg_reading ''VAR'' p) w)"
    using cur unfolding var_parts_step [OF rd] by (simp add: var_step_not_larger)
next
  fix e w0 w1 prefix full_prefix
  assume "\<not> path_exists w0 (var_full_filename full_prefix) \<and>
        var_parts L (sorted_glob w0 prefix ''.pileup.var.gz'')
          \<lparr>most_complete_df = None, most_complete_filename = None\<rparr> w0 = (Inl e, w1)"
  then show "write_popscle_pileup_var_full_filename L prefix full_prefix w0 = (Inl e, w1)"
    by (simp add: write_popscle_pileup_var_full_filename_def)
next
  assume lt: "length cand < length df"
    and eq: "df_getitem cand (int (length cand) - 1) = df_getitem df (int (length cand) - 1)"
  have "cand \<noteq> []"
  proof
    assume "cand = []"
    with lt eq show False
      by (simp add: df_getitem_minus1)
  qed
  with lt eq have "cand ! (length cand - 1) = df ! (length cand - 1)"
    by (simp add: df_getitem_boundary)
  with lt \<open>cand \<noteq> []\<close> show "var_parts L (p # ps) s w =
             var_parts L ps \<lparr>most_complete_df = Some df, most_complete_filename = Some p\<rparr>
               (eprint (msg_reading ''VAR'' p) w)"
    using cur unfolding var_parts_step [OF rd] by (simp add: var_step_larger)
next
  assume lt: "length cand < length df"
    and neq: "df_getitem cand (int (length cand) - 1) \<noteq> df_getitem df (int (length cand) - 1)"
  show "\<exists>e. var_parts L (p # ps) s w = (Inl e, eprint (msg_reading ''VAR'' p) w)"
  proof (cases "cand = []")
    case True
    with lt show ?thesis
      using cur unfolding var_parts_step [OF rd] by (simp add: var_step_larger)
  next
    case False
    with lt neq have "cand ! (length cand - 1) \<noteq> df ! (length cand - 1)"
      by (simp add: df_getitem_boundary)
    with lt False show ?thesis
      using cur unfolding var_parts_step [OF rd] by (simp add: var_step_larger)
  qed
next
  assume "length cand < length df" "cand \<noteq> []"
  then show "df_getitem cand (int (length cand) - 1) = [cand ! (length cand - 1)]"
    by (simp add: df_getitem_boundary)
next
  assume "length cand < length df" "cand \<noteq> []"
  then show "df_getitem df (int (length cand) - 1) = [df ! (length cand - 1)]"
    by (simp add: df_getitem_boundary)
next
  assume lt: "length cand < length df" and ne: "cand \<noteq> []"
    and diff: "\<not> (var_SNP_ID (cand ! (length cand - 1)) = var_SNP_ID (df ! (length cand - 1)) \<and>
               CHROM (cand ! (length cand - 1)) = CHROM (df ! (length cand - 1)) \<and>
               POS (cand ! (length cand - 1)) = POS (df ! (length cand - 1)) \<and>
               REF (cand ! (length cand - 1)) = REF (df ! (length cand - 1)) \<and>
               ALT (cand ! (length cand - 1)) = ALT (df ! (length cand - 1)) \<and>
               AF (cand ! (length cand - 1)) = AF (df ! (length cand - 1)))"
  then have "cand ! (length cand - 1) \<noteq> df ! (length cand - 1)"
    by (simp only: var_row_eq_iff not_False_eq_True)
  with lt ne show "var_parts L (p # ps) s w =
              (Inl (AssertionError
                     ''SNP_IDs do not match between different popscle dsc pileup var files.''),
               eprint (msg_reading ''VAR'' p) w)"
    using cur unfolding var_parts_step [OF rd] by (simp add: var_step_larger)
qed

lemma var_boundary_check_example:
  "fst (var_parts toy_lib (sorted_glob var_bad_world ''s'' ''.pileup.var.gz'')
          \<lparr>most_complete_df = None, most_complete_filename = None\<rparr> var_bad_world) =
     Inl (AssertionError ''SNP_IDs do not match between different popscle dsc pileup var files.'')"
proof -
  let ?w1 = "eprint (msg_reading ''VAR'' ''s.0.pileup.var.gz'') var_bad_world"
  let ?cand = "map toy_var_row (enumerate 0 ''abc'')"
  let ?df = "map toy_var_row (enumerate 0 ''abXde'')"
  let ?s1 = "\<lparr>most_complete_df = Some ?cand, most_complete_filename = Some ''s.0.pileup.var.gz''\<rparr>"
  have first: "var_parts toy_lib (sorted_glob var_bad_world ''s'' ''.pileup.var.gz'')
          \<lparr>most_complete_df = None, most_complete_filename = None\<rparr> var_bad_world =
        var_parts toy_lib [''s.1.pileup.var.gz''] ?s1 ?w1"
    unfolding var_bad_glob
    by (simp add: var_parts_step var_bad_world_reads var_step_None del: var_parts.simps)
  have cur: "most_complete_df ?s1 = Some ?cand" by simp
  have rd: "read_csv (read_csv_var toy_lib) ?w1 ''s.1.pileup.var.gz'' = Inr ?df"
    by (simp add: var_bad_world_reads)
  from var_boundary_check [OF cur rd, of "[]"]
  have "var_parts toy_lib [''s.1.pileup.var.gz''] ?s1 ?w1 =
          (Inl (AssertionError ''SNP_IDs do not match between different popscle dsc pileup var files.''),
           eprint (msg_reading ''VAR'' ''s.1.pileup.var.gz'') ?w1)"
    by (simp add: enumerate_eq_zip upt_rec toy_var_row_def del: var_parts.simps)
  with first show ?thesis by simp
qed

text \<open>
  C4. The claim holds for a candidate of at least one row (the lemma above). A candidate
  without rows has no row at position (row count - 1): the index is \<open>-1\<close>, which selects
  no row of the candidate and the last row of the larger shard, the comparison has no single
  element, and \<^verbatim>\<open>item\<close> raises. Here the first shard has a header and no row, the second one
  row: no row of the candidate differs from the larger shard, yet the larger shard does not
  become the candidate; the function ends with the \<^verbatim>\<open>ValueError\<close> and nothing is copied.
\<close>

theorem var_empty_candidate_aborts:
  "read_csv (read_csv_var toy_lib) var_empty_first_world ''s.0.pileup.var.gz'' = Inr [] \<and>
   (\<exists>row. read_csv (read_csv_var toy_lib) var_empty_first_world ''s.1.pileup.var.gz'' = Inr [row]) \<and>
   fst (write_popscle_pileup_var_full_filename toy_lib ''s'' ''m'' var_empty_first_world) =
     Inl (ValueError ''can only call .item() if the Series is of length 1'') \<and>
   files (snd (write_popscle_pileup_var_full_filename toy_lib ''s'' ''m'' var_empty_first_world)) =
     files var_empty_first_world"
proof -
  have r0: "read_csv (read_csv_var toy_lib) var_empty_first_world ''s.0.pileup.var.gz'' = Inr []"
    by (simp add: read_csv_def read_file_def var_empty_first_world_def toy_read_def)
  have r1: "read_csv (read_csv_var toy_lib) var_empty_first_world ''s.1.pileup.var.gz'' =
              Inr [toy_var_row (0, CHR ''a'')]"
    by (simp add: read_csv_def read_file_def var_empty_first_world_def toy_read_def)
  have ne: "\<not> path_exists var_empty_first_world (var_full_filename ''m'')"
    by (simp add: path_exists_def var_empty_first_world_def var_full_filename_def)
  have g: "sorted_glob var_empty_first_world ''s'' ''.pileup.var.gz'' =
             [''s.0.pileup.var.gz'', ''s.1.pileup.var.gz'']"
    by (simp add: sorted_glob_def glob_def glob_match_def var_empty_first_world_def)
  have "write_popscle_pileup_var_full_filename toy_lib ''s'' ''m'' var_empty_first_world =
          (Inl (ValueError ''can only call .item() if the Series is of length 1''),
           eprint (msg_reading ''VAR'' ''s.1.pileup.var.gz'')
             (eprint (msg_reading ''VAR'' ''s.0.pileup.var.gz'') var_empty_first_world))"
    using ne
    by (simp add: write_popscle_pileup_var_full_filename_def g r0 [unfolded toy_lib_simps]
          r1 [unfolded toy_lib_simps] var_step_None var_step_larger)
  with r0 r1 show ?thesis
    by simp
qed

text \<open>
  C5, as amended. For the SNP, UMI and variant kinds, zero discovered shards do not fail the
  run. With its destination absent (and not itself matched as a shard) and no shard found,
  the SNP merge returns \<^verbatim>\<open>True\<close> and leaves a destination that holds the compression of no
  data (not even a header); so does the UMI merge; the variant reconciliation returns
  \<^verbatim>\<open>False\<close> and changes nothing: no file is written, nothing is copied, nothing is printed.
  When the upfront check passes, the droplet merge returns a table and there is no SNP, UMI
  or variant shard, \<open>main\<close> ends normally, with status 0, the SNP and UMI destinations
  holding the compression of no data and the variant destination absent.
\<close>

theorem missing_shards_snp_umi_var:
  "(\<not> path_exists w (plp_full_filename f) \<and>
    \<not> glob_match (prefix @ ''.'') ''.pileup.plp.gz'' (plp_full_filename f) \<and>
    sorted_glob w prefix ''.pileup.plp.gz'' = [] \<longrightarrow>
      (\<exists>w'. write_popscle_pileup_plp_full_filename L df prefix f w = (Inr True, w') \<and>
            read_file w' (plp_full_filename f) = Inr (gzip_compress L []))) \<and>
   (\<not> path_exists w (umi_full_filename f) \<and>
    \<not> glob_match (prefix @ ''.'') ''.pileup.umi.gz'' (umi_full_filename f) \<and>
    sorted_glob w prefix ''.pileup.umi.gz'' = [] \<longrightarrow>
      (\<exists>w'. write_popscle_pileup_umi_full_filename L prefix f w = (Inr True, w') \<and>
            read_file w' (umi_full_filename f) = Inr (gzip_compress L []))) \<and>
   (\<not> path_exists w (var_full_filename f) \<and> sorted_glob w prefix ''.pileup.var.gz'' = [] \<longrightarrow>
      write_popscle_pileup_var_full_filename L prefix f w = (Inr False, w)) \<and>
   (\<not> fst (check_outputs f w) \<and>
    write_popscle_pileup_cel_full_filename L prefix f w = (Inr (Some df), w1) \<and>
    sorted_glob w prefix ''.pileup.plp.gz'' = [] \<and>
    sorted_glob w prefix ''.pileup.umi.gz'' = [] \<and>
    sorted_glob w prefix ''.pileup.var.gz'' = [] \<and>
    \<not> glob_match (prefix @ ''.'') ''.pileup.plp.gz'' (plp_full_filename f) \<and>
    \<not> glob_match (prefix @ ''.'') ''.pileup.umi.gz'' (umi_full_filename f) \<longrightarrow>
      (\<exists>w'. main L prefix f w = (Exit 0, w') \<and>
            read_file w' (plp_full_filename f) = Inr (gzip_compress L []) \<and>
            read_file w' (umi_full_filename f) = Inr (gzip_compress L []) \<and>
            \<not> path_exists w' (var_full_filename f)))"
proof (intro conjI impI)
  assume "\<not> path_exists w (plp_full_filename f) \<and>
    \<not> glob_match (prefix @ ''.'') ''.pileup.plp.gz'' (plp_full_filename f) \<and>
    sorted_glob w prefix ''.pileup.plp.gz'' = []"
  then obtain w' where "write_popscle_pileup_plp_full_filename L df prefix f w = (Inr True, w')"
    "map_of (files w') = (map_of (files w))(plp_full_filename f \<mapsto> gzip_compress L [])"
    using plp_no_shards by blast
  then show "\<exists>w'. write_popscle_pileup_plp_full_filename L df prefix f w = (Inr True, w') \<and>
            read_file w' (plp_full_filename f) = Inr (gzip_compress L [])"
    by (auto simp: read_file_map_of)
next
  assume "\<not> path_exists w (umi_full_filename f) \<and>
    \<not> glob_match (prefix @ ''.'') ''.pileup.umi.gz'' (umi_full_filename f) \<and>
    sorted_glob w prefix ''.pileup.umi.gz'' = []"
  then obtain w' where "write_popscle_pileup_umi_full_filename L prefix f w = (Inr True, w')"
    "map_of (files w') = (map_of (files w))(umi_full_filename f \<mapsto> gzip_compress L [])"
    using umi_no_shards by blast
  then show "\<exists>w'. write_popscle_pileup_umi_full_filename L prefix f w = (Inr True, w') \<and>
            read_file w' (umi_full_filename f) = Inr (gzip_compress L [])"
    by (auto simp: read_file_map_of)
next
  assume "\<not> path_exists w (var_full_filename f) \<and> sorted_glob w prefix ''.pileup.var.gz'' = []"
  then show "write_popscle_pileup_var_full_filename L prefix f w = (Inr False, w)"
    by (simp add: var_no_shards)
next
  assume a: "\<not> fst (check_outputs f w) \<and>
    write_popscle_pileup_cel_full_filename L prefix f w = (Inr (Some df), w1) \<and>
    sorted_glob w prefix ''.pileup.plp.gz'' = [] \<and>
    sorted_glob w prefix ''.pileup.umi.gz'' = [] \<and>
    sorted_glob w prefix ''.pileup.var.gz'' = [] \<and>
    \<not> glob_match (prefix @ ''.'') ''.pileup.plp.gz'' (plp_full_filename f) \<and>
    \<not> glob_match (prefix @ ''.'') ''.pileup.umi.gz'' (umi_full_filename f)"
  then have none: "map_of (files w) (plp_full_filename f) = None"
    "map_of (files w) (umi_full_filename f) = None" "map_of (files w) (var_full_filename f) = None"
    by (simp_all add: check_outputs_fst path_exists_map_of)
  from a have chk: "check_outputs f w = (False, w)"
    by (simp add: check_outputs_none)
  from a cel_merge_frame obtain b where
    m1: "map_of (files w1) = (map_of (files w))(cel_full_filename f \<mapsto> b)"
    by blast
  have g1: "sorted_glob w1 prefix ''.pileup.plp.gz'' = []"
    "sorted_glob w1 prefix ''.pileup.umi.gz'' = []" "sorted_glob w1 prefix ''.pileup.var.gz'' = []"
    using a by (simp_all add: sorted_glob_map_upd [OF m1] other_kind_no_match)
  have "\<not> path_exists w1 (plp_full_filename f)"
    using none by (simp add: path_exists_map_of m1 dest_names_differ)
  from plp_no_shards [OF this _ g1(1), of L df] a obtain w2 where
    plp: "write_popscle_pileup_plp_full_filename L df prefix f w1 = (Inr True, w2)"
    and m2: "map_of (files w2) = (map_of (files w1))(plp_full_filename f \<mapsto> gzip_compress L [])"
    by blast
  have g2: "sorted_glob w2 prefix ''.pileup.umi.gz'' = []" "sorted_glob w2 prefix ''.pileup.var.gz'' = []"
    using g1 by (simp_all add: sorted_glob_map_upd [OF m2] other_kind_no_match)
  have "\<not> path_exists w2 (umi_full_filename f)"
    using none by (simp add: path_exists_map_of m1 m2 dest_names_differ)
  from umi_no_shards [OF this _ g2(1), of L] a obtain w3 where
    umi: "write_popscle_pileup_umi_full_filename L prefix f w2 = (Inr True, w3)"
    and m3: "map_of (files w3) = (map_of (files w2))(umi_full_filename f \<mapsto> gzip_compress L [])"
    by blast
  have g3: "sorted_glob w3 prefix ''.pileup.var.gz'' = []"
    using g2 by (simp add: sorted_glob_map_upd [OF m3] other_kind_no_match)
  have nv: "\<not> path_exists w3 (var_full_filename f)"
    using none by (simp add: path_exists_map_of m1 m2 m3 dest_names_differ)
  have var: "write_popscle_pileup_var_full_filename L prefix f w3 = (Inr False, w3)"
    using nv g3 by (rule var_no_shards)
  have "main L prefix f w = (Exit 0, w3)"
    using a plp umi var by (simp add: main_def chk main_merge_def)
  moreover have "read_file w3 (plp_full_filename f) = Inr (gzip_compress L [])"
    "read_file w3 (umi_full_filename f) = Inr (gzip_compress L [])"
    by (simp_all add: read_file_map_of m2 m3 dest_names_differ)
  ultimately show "\<exists>w'. main L prefix f w = (Exit 0, w') \<and>
            read_file w' (plp_full_filename f) = Inr (gzip_compress L []) \<and>
            read_file w' (umi_full_filename f) = Inr (gzip_compress L []) \<and>
            \<not> path_exists w' (var_full_filename f)"
    using nv by blast
qed

theorem missing_shards_snp_umi_var_witness:
  "\<exists>w'. main toy_lib ''s'' ''m'' cel_only_world = (Exit 0, w') \<and>
     read_file w' ''m.pileup.plp.gz'' = Inr ''z'' \<and>
     read_file w' ''m.pileup.umi.gz'' = Inr ''z'' \<and>
     \<not> path_exists w' ''m.pileup.var.gz''"
proof -
  from cel_only_merge obtain df w1 where
    cel: "write_popscle_pileup_cel_full_filename toy_lib ''s'' ''m'' cel_only_world = (Inr (Some df), w1)"
    by blast
  from missing_shards_snp_umi_var [of cel_only_world "''m''" "''s''" toy_lib df w1]
    cel_only_check cel cel_only_globs m_no_match
  show ?thesis
    by (simp add: plp_full_filename_def umi_full_filename_def var_full_filename_def)
qed

text \<open>
  C5 as stated fails for the droplet kind: \<^verbatim>\<open>pl.concat\<close> raises on the empty list of frames.
  In a world without any file, no droplet shard is discovered and the run ends with the
  uncaught \<^verbatim>\<open>ValueError\<close>, status 1, before any destination is created.
\<close>

theorem missing_droplet_shards_abort:
  "sorted_glob empty_world ''s'' ''.pileup.cel.gz'' = [] \<and>
   main toy_lib ''s'' ''m'' empty_world =
     (Uncaught (ValueError ''cannot concat empty list''), empty_world) \<and>
   exit_status (fst (main toy_lib ''s'' ''m'' empty_world)) = 1"
proof -
  have g: "sorted_glob empty_world ''s'' ''.pileup.cel.gz'' = []"
    by (simp add: sorted_glob_def glob_def empty_world_def)
  have ne: "\<not> path_exists empty_world (cel_full_filename ''m'')"
    by (simp add: path_exists_def empty_world_def)
  have chk: "check_outputs ''m'' empty_world = (False, empty_world)"
    by (rule check_outputs_none) (simp add: check_outputs_fst path_exists_def empty_world_def)
  have "main toy_lib ''s'' ''m'' empty_world =
     (Uncaught (ValueError ''cannot concat empty list''), empty_world)"
    by (simp add: main_def chk main_merge_def cel_no_shards [OF ne g])
  with g show ?thesis by simp
qed

text \<open>
  C6. When at least one of the four destination files exists, \<open>main\<close> ends with
  \<^verbatim>\<open>sys.exit(1)\<close>; the files are what they were (no destination is overwritten, nothing is
  merged), and what was printed is one error message for each destination that exists, in
  the order CEL, PLP, UMI, VAR, and nothing else.
\<close>

theorem main_refuses_existing_output:
  assumes "path_exists w (cel_full_filename full_prefix) \<or> path_exists w (plp_full_filename full_prefix) \<or>
           path_exists w (umi_full_filename full_prefix) \<or> path_exists w (var_full_filename full_prefix)"
  shows "\<exists>w'. main L prefix full_prefix w = (Exit 1, w') \<and>
           exit_status (fst (main L prefix full_prefix w)) \<noteq> 0 \<and>
           files w' = files w \<and>
           stderr w' =
             stderr w @
             [msg_exists kind p.
                (kind, p) \<leftarrow> [(''CEL'', cel_full_filename full_prefix),
                             (''PLP'', plp_full_filename full_prefix),
                             (''UMI'', umi_full_filename full_prefix),
                             (''VAR'', var_full_filename full_prefix)],
                path_exists w p]"
proof -
  obtain w1 where c: "check_outputs full_prefix w = (True, w1)"
    using assms check_outputs_fst [of full_prefix w]
    by (cases "check_outputs full_prefix w") auto
  then have run: "main L prefix full_prefix w = (Exit 1, w1)"
    by (simp add: main_def)
  have "files w1 = files w"
    using check_outputs_files [of full_prefix w] c by simp
  moreover have "stderr w1 =
             stderr w @
             [msg_exists kind p.
                (kind, p) \<leftarrow> [(''CEL'', cel_full_filename full_prefix),
                             (''PLP'', plp_full_filename full_prefix),
                             (''UMI'', umi_full_filename full_prefix),
                             (''VAR'', var_full_filename full_prefix)],
                path_exists w p]"
    using check_outputs_stderr [of full_prefix w] c by simp
  ultimately show ?thesis
    using run by simp
qed

theorem main_refuses_existing_output_witness:
  "\<exists>w'. main toy_lib ''s'' ''m'' exists_world = (Exit 1, w') \<and>
     files w' = files exists_world \<and>
     stderr w' = [msg_exists ''PLP'' ''m.pileup.plp.gz'', msg_exists ''VAR'' ''m.pileup.var.gz'']"
proof -
  have ex: "\<not> path_exists exists_world (cel_full_filename ''m'')"
    "path_exists exists_world (plp_full_filename ''m'')"
    "\<not> path_exists exists_world (umi_full_filename ''m'')"
    "path_exists exists_world (var_full_filename ''m'')"
    by (simp_all add: path_exists_def exists_world_def cel_full_filename_def plp_full_filename_def
          umi_full_filename_def var_full_filename_def)
  then have "path_exists exists_world (cel_full_filename ''m'') \<or>
             path_exists exists_world (plp_full_filename ''m'') \<or>
             path_exists exists_world (umi_full_filename ''m'') \<or>
             path_exists exists_world (var_full_filename ''m'')"
    by simp
  from main_refuses_existing_output [OF this, of toy_lib "''s''"] obtain w' where
    run: "main toy_lib ''s'' ''m'' exists_world = (Exit 1, w')"
    and f: "files w' = files exists_world"
    and e: "stderr w' =
             stderr exists_world @
             [msg_exists kind p.
                (kind, p) \<leftarrow> [(''CEL'', cel_full_filename ''m''),
                             (''PLP'', plp_full_filename ''m''),
                             (''UMI'', umi_full_filename ''m''),
                             (''VAR'', var_full_filename ''m'')],
                path_exists exists_world p]"
    by blast
  have "stderr w' = [msg_exists ''PLP'' ''m.pileup.plp.gz'', msg_exists ''VAR'' ''m.pileup.var.gz'']"
    unfolding e using ex
    by (simp add: exists_world_def plp_full_filename_def var_full_filename_def)
  with run f show ?thesis by blast
qed

text \<open>
  C7, as amended. When the UMI destination does not exist and is not a name that the shard
  pattern matches, every UMI shard of the sorted glob is read to its end, and every line
  has a tab, the UMI merge succeeds and writes one record per input line, in the order of
  the shards and of the lines within them: the counter of a line is its position in the
  concatenation of all shards, starting at 0 and not reset at a shard boundary; the line
  from its first tab on is written as it was read, its line end included. The records are
  written one after the other with nothing between them. When every input line is complete,
  the lines of the written text are the records: one output line per input line.
\<close>

theorem umi_merge_renumbers:
  assumes dest: "\<not> path_exists w (umi_full_filename full_prefix)"
    and noalias: "\<not> glob_match (prefix @ ''.'') ''.pileup.umi.gz'' (umi_full_filename full_prefix)"
    and rd: "list_all2 (\<lambda>p lines. \<exists>b. read_file w p = Inr b \<and> gzip_text_lines L b = (lines, None))
                  (sorted_glob w prefix ''.pileup.umi.gz'') shards"
    and tabs: "\<forall>line \<in> set (concat shards). tab \<in> set line"
  shows "\<exists>w'. write_popscle_pileup_umi_full_filename L prefix full_prefix w = (Inr True, w') \<and>
          read_file w' (umi_full_filename full_prefix) =
            Inr (gzip_compress L (concat (umi_records (concat shards)))) \<and>
          length (umi_records (concat shards)) = length (concat shards) \<and>
          (\<forall>k < length (concat shards).
             umi_records (concat shards) ! k =
               str_nat k @ dropWhile (\<lambda>x. x \<noteq> tab) (concat shards ! k)) \<and>
          (list_all complete_line (concat shards) \<longrightarrow>
             text_lines (concat (umi_records (concat shards))) = umi_records (concat shards))"
proof -
  from tabs have all: "takeWhile (\<lambda>l. tab \<in> set l) (concat shards) = concat shards"
    by simp
  have "umi_lines (concat shards) 0 [] =
          (None, length (concat shards), concat (umi_records (concat shards)))"
    using tabs unfolding umi_lines_eq all umi_records_def by simp
  with umi_merge_run [OF dest noalias rd] obtain w' where
    run: "write_popscle_pileup_umi_full_filename L prefix full_prefix w = (Inr True, w')"
    and written: "read_file w' (umi_full_filename full_prefix) =
            Inr (gzip_compress L (concat (umi_records (concat shards))))"
    by auto
  have len: "length (umi_records (concat shards)) = length (concat shards)"
    by (simp add: umi_records_def)
  have nth: "\<forall>k < length (concat shards).
             umi_records (concat shards) ! k =
               str_nat k @ dropWhile (\<lambda>x. x \<noteq> tab) (concat shards ! k)"
    by (simp add: umi_records_def nth_enumerate_eq renumbered_def)
  have lines: "list_all complete_line (concat shards) \<longrightarrow>
             text_lines (concat (umi_records (concat shards))) = umi_records (concat shards)"
    using tabs by (simp add: umi_records_lines)
  from run written len nth lines show ?thesis
    by blast
qed

theorem umi_merge_renumbers_witness:
  "\<exists>w'. write_popscle_pileup_umi_full_filename toy_lib ''s'' ''m'' umi_world = (Inr True, w') \<and>
     read_file w' ''m.pileup.umi.gz'' =
       Inr (''z'' @ ''0'' @ tab # ''A'' @ [nl] @ ''1'' @ tab # ''B'' @ [nl] @ ''2'' @ tab # ''C'' @ [nl]) \<and>
     text_lines (''0'' @ tab # ''A'' @ [nl] @ ''1'' @ tab # ''B'' @ [nl] @ ''2'' @ tab # ''C'' @ [nl]) =
       [''0'' @ tab # ''A'' @ [nl], ''1'' @ tab # ''B'' @ [nl], ''2'' @ tab # ''C'' @ [nl]]"
proof -
  let ?shards = "[[''7'' @ tab # ''A'' @ [nl], ''9'' @ tab # ''B'' @ [nl]], [''0'' @ tab # ''C'' @ [nl]]]"
  have dest: "\<not> path_exists umi_world (umi_full_filename ''m'')"
    by (simp add: path_exists_def umi_world_def umi_full_filename_def)
  have noalias: "\<not> glob_match (''s'' @ ''.'') ''.pileup.umi.gz'' (umi_full_filename ''m'')"
    by (simp add: glob_match_def umi_full_filename_def)
  have rd: "list_all2 (\<lambda>p lines. \<exists>b. read_file umi_world p = Inr b \<and> gzip_text_lines toy_lib b = (lines, None))
              (sorted_glob umi_world ''s'' ''.pileup.umi.gz'') ?shards"
    unfolding umi_glob
    by (simp add: read_file_def umi_world_def)
  have tabs: "\<forall>line \<in> set (concat ?shards). tab \<in> set line"
    by simp
  have complete: "list_all complete_line (concat ?shards)"
    by (simp add: complete_line_def nl_def tab_def)
  have records: "umi_records (concat ?shards) =
      [''0'' @ tab # ''A'' @ [nl], ''1'' @ tab # ''B'' @ [nl], ''2'' @ tab # ''C'' @ [nl]]"
    by (simp add: umi_records_def enumerate_eq_zip upt_rec renumbered_def str_nat_digits)
  from umi_merge_renumbers [OF dest noalias rd tabs] obtain w' where
    run: "write_popscle_pileup_umi_full_filename toy_lib ''s'' ''m'' umi_world = (Inr True, w')"
    and written: "read_file w' (umi_full_filename ''m'') =
            Inr (gzip_compress toy_lib (concat (umi_records (concat ?shards))))"
    and lines: "list_all complete_line (concat ?shards) \<longrightarrow>
             text_lines (concat (umi_records (concat ?shards))) = umi_records (concat ?shards)"
    by blast
  from lines complete have "text_lines (concat (umi_records (concat ?shards))) = umi_records (concat ?shards)"
    by (rule mp)
  then have l: "text_lines (''0'' @ tab # ''A'' @ [nl] @ ''1'' @ tab # ''B'' @ [nl] @ ''2'' @ tab # ''C'' @ [nl]) =
       [''0'' @ tab # ''A'' @ [nl], ''1'' @ tab # ''B'' @ [nl], ''2'' @ tab # ''C'' @ [nl]]"
    unfolding records by simp
  from written have f: "read_file w' ''m.pileup.umi.gz'' =
       Inr (''z'' @ ''0'' @ tab # ''A'' @ [nl] @ ''1'' @ tab # ''B'' @ [nl] @ ''2'' @ tab # ''C'' @ [nl])"
    unfolding records by (simp add: umi_full_filename_def)
  from run f l show ?thesis
    by blast
qed

text \<open>
  The claim as stated, one output line per input line, does not hold for a shard whose
  last line has no line end: the record written for it is continued by the next record.
  Here the destination does not exist and is not matched by the pattern, both shards are
  read to their end, the two input lines have a tab each, and the written text is one
  line.
\<close>

theorem umi_cut_line_joins_records:
  "\<not> path_exists umi_cut_world (umi_full_filename ''m'') \<and>
   \<not> glob_match (''s'' @ ''.'') ''.pileup.umi.gz'' (umi_full_filename ''m'') \<and>
   list_all2 (\<lambda>p lines. \<exists>b. read_file umi_cut_world p = Inr b \<and> gzip_text_lines toy_lib b = (lines, None))
     (sorted_glob umi_cut_world ''s'' ''.pileup.umi.gz'')
     [[''7'' @ tab # ''A''], [''0'' @ tab # ''C'' @ [nl]]] \<and>
   list_all (\<lambda>line. tab \<in> set line) [''7'' @ tab # ''A'', ''0'' @ tab # ''C'' @ [nl]] \<and>
   fst (write_popscle_pileup_umi_full_filename toy_lib ''s'' ''m'' umi_cut_world) = Inr True \<and>
   read_file (snd (write_popscle_pileup_umi_full_filename toy_lib ''s'' ''m'' umi_cut_world))
       (umi_full_filename ''m'') =
     Inr (gzip_compress toy_lib (''0'' @ tab # ''A'' @ ''1'' @ tab # ''C'' @ [nl])) \<and>
   text_lines (''0'' @ tab # ''A'' @ ''1'' @ tab # ''C'' @ [nl]) =
     [''0'' @ tab # ''A'' @ ''1'' @ tab # ''C'' @ [nl]]"
proof -
  let ?shards = "[[''7'' @ tab # ''A''], [''0'' @ tab # ''C'' @ [nl]]]"
  have g: "sorted_glob umi_cut_world ''s'' ''.pileup.umi.gz'' = [''s.0.pileup.umi.gz'', ''s.1.pileup.umi.gz'']"
    by (simp add: sorted_glob_def glob_def glob_match_def umi_cut_world_def)
  have dest: "\<not> path_exists umi_cut_world (umi_full_filename ''m'')"
    by (simp add: path_exists_def umi_cut_world_def umi_full_filename_def)
  have noalias: "\<not> glob_match (''s'' @ ''.'') ''.pileup.umi.gz'' (umi_full_filename ''m'')"
    by (simp add: glob_match_def umi_full_filename_def)
  have rd: "list_all2 (\<lambda>p lines. \<exists>b. read_file umi_cut_world p = Inr b \<and> gzip_text_lines toy_lib b = (lines, None))
              (sorted_glob umi_cut_world ''s'' ''.pileup.umi.gz'') ?shards"
    unfolding g
    by (simp add: read_file_def umi_cut_world_def)
  have tabs: "list_all (\<lambda>line. tab \<in> set line) [''7'' @ tab # ''A'', ''0'' @ tab # ''C'' @ [nl]]"
    by simp
  have loop: "umi_lines (concat ?shards) 0 [] =
      (None, 2, ''0'' @ tab # ''A'' @ ''1'' @ tab # ''C'' @ [nl])"
    unfolding umi_lines_eq
    by (simp add: enumerate_eq_zip upt_rec renumbered_def str_nat_digits)
  from umi_merge_run [OF dest noalias rd] obtain w' where
    run: "write_popscle_pileup_umi_full_filename toy_lib ''s'' ''m'' umi_cut_world = (Inr True, w')"
    and written: "read_file w' (umi_full_filename ''m'') =
            Inr (gzip_compress toy_lib (''0'' @ tab # ''A'' @ ''1'' @ tab # ''C'' @ [nl]))"
    unfolding loop by auto
  have l: "text_lines (''0'' @ tab # ''A'' @ ''1'' @ tab # ''C'' @ [nl]) =
     [''0'' @ tab # ''A'' @ ''1'' @ tab # ''C'' @ [nl]]"
    by (simp add: text_lines_def)
  from written have written': "read_file (snd (write_popscle_pileup_umi_full_filename toy_lib ''s'' ''m'' umi_cut_world))
       (umi_full_filename ''m'') =
     Inr (gzip_compress toy_lib (''0'' @ tab # ''A'' @ ''1'' @ tab # ''C'' @ [nl]))"
    unfolding run by simp
  have run': "fst (write_popscle_pileup_umi_full_filename toy_lib ''s'' ''m'' umi_cut_world) = Inr True"
    unfolding run by simp
  show ?thesis
    by (intro conjI dest noalias rd tabs run' written' l)
qed
text \<open>
  C8. When the variant destination does not exist and the loop of the reconciliation ends
  with a selected file name, the function returns \<^verbatim>\<open>True\<close>, the destination then holds
  exactly the bytes the selected shard file holds, and no other file has changed.
\<close>

theorem var_copy_verbatim:
  assumes dest: "\<not> path_exists w (var_full_filename full_prefix)"
    and sel: "var_parts L (sorted_glob w prefix ''.pileup.var.gz'')
                \<lparr>most_complete_df = None, most_complete_filename = None\<rparr> w = (Inr s, w1)"
    and win: "most_complete_filename s = Some p"
  shows "\<exists>w' b.
           write_popscle_pileup_var_full_filename L prefix full_prefix w = (Inr True, w') \<and>
           read_file w p = Inr b \<and>
           read_file w' (var_full_filename full_prefix) = Inr b \<and>
           (\<forall>q. q \<noteq> var_full_filename full_prefix \<longrightarrow> read_file w' q = read_file w q)"
proof -
  let ?full = "var_full_filename full_prefix"
  from var_parts_filename [OF sel win] have mem: "p \<in> set (sorted_glob w prefix ''.pileup.var.gz'')"
    by simp
  then have ex: "path_exists w p"
    by (rule sorted_glob_exists)
  then obtain b where b: "read_file w p = Inr b"
    using read_file_exists by blast
  from ex dest have ne: "p \<noteq> ?full" by auto
  from mem have "glob_match (prefix @ ''.'') ''.pileup.var.gz'' p"
    by (rule sorted_glob_match)
  then have nonempty: "p \<noteq> []"
    by (rule glob_match_nonempty) simp
  have f1: "files w1 = files w"
    using sel by (rule var_parts_files)
  let ?w2 = "eprint (msg_writing ''VAR'' ?full) w1"
  have b2: "read_file ?w2 p = Inr b"
    using b f1 by (simp add: read_file_def)
  let ?w3 = "write_file ?full b ?w2"
  have run: "write_popscle_pileup_var_full_filename L prefix full_prefix w = (Inr True, ?w3)"
    using dest sel win nonempty ne b2
    by (simp add: write_popscle_pileup_var_full_filename_def copy2_def Let_def)
  have "read_file ?w3 ?full = Inr b"
    by (simp add: read_file_write_file)
  moreover have "\<forall>q. q \<noteq> ?full \<longrightarrow> read_file ?w3 q = read_file w q"
    using f1 by (simp add: read_file_write_file read_file_cong [of w1 w])
  ultimately show ?thesis
    using run b by blast
qed

theorem var_copy_verbatim_witness:
  "\<exists>w'. write_popscle_pileup_var_full_filename toy_lib ''s'' ''m'' var_world = (Inr True, w') \<and>
     read_file w' ''m.pileup.var.gz'' = Inr ''abcde''"
proof -
  let ?names = "sorted_glob var_world ''s'' ''.pileup.var.gz''"
  obtain r w1 where run: "var_parts toy_lib ?names
       \<lparr>most_complete_df = None, most_complete_filename = None\<rparr> var_world = (r, w1)"
    by (cases "var_parts toy_lib ?names
       \<lparr>most_complete_df = None, most_complete_filename = None\<rparr> var_world") auto
  with var_world_run have sel: "var_parts toy_lib ?names
       \<lparr>most_complete_df = None, most_complete_filename = None\<rparr> var_world =
       (Inr \<lparr>most_complete_df = Some (map toy_var_row (enumerate 0 ''abcde'')),
          most_complete_filename = Some ''s.1.pileup.var.gz''\<rparr>, w1)"
    by auto
  have dest: "\<not> path_exists var_world (var_full_filename ''m'')"
    by (simp add: path_exists_def var_world_def var_full_filename_def)
  from var_copy_verbatim [OF dest sel, of "''s.1.pileup.var.gz''"] show ?thesis
    by (auto simp: read_file_def var_world_def var_full_filename_def)
qed

text \<open>
  C9, as amended. After the upfront check, \<open>main\<close> is \<open>main_merge\<close>. When the droplet
  merge returns a table and each of the SNP, UMI and variant procedures returns, the process
  ends with status 0 whatever the three booleans are: they are dropped. When the droplet
  merge returns \<^verbatim>\<open>None\<close> the process ends with status 1. An exception that leaves any of the
  four procedures is not caught: the process ends with it, with status 1.
\<close>

theorem main_discards_booleans:
  "(write_popscle_pileup_cel_full_filename L prefix f w = (Inr (Some df), w1) \<and>
    write_popscle_pileup_plp_full_filename L df prefix f w1 = (Inr b1, w2) \<and>
    write_popscle_pileup_umi_full_filename L prefix f w2 = (Inr b2, w3) \<and>
    write_popscle_pileup_var_full_filename L prefix f w3 = (Inr b3, w4) \<longrightarrow>
      main_merge L prefix f w = (Exit 0, w4)) \<and>
   (write_popscle_pileup_cel_full_filename L prefix f w = (Inr None, w1) \<longrightarrow>
      main_merge L prefix f w = (Exit 1, w1)) \<and>
   (write_popscle_pileup_cel_full_filename L prefix f w = (Inl e, w1) \<longrightarrow>
      main_merge L prefix f w = (Uncaught e, w1)) \<and>
   (write_popscle_pileup_cel_full_filename L prefix f w = (Inr (Some df), w1) \<and>
    write_popscle_pileup_plp_full_filename L df prefix f w1 = (Inl e, w2) \<longrightarrow>
      main_merge L prefix f w = (Uncaught e, w2)) \<and>
   (write_popscle_pileup_cel_full_filename L prefix f w = (Inr (Some df), w1) \<and>
    write_popscle_pileup_plp_full_filename L df prefix f w1 = (Inr b1, w2) \<and>
    write_popscle_pileup_umi_full_filename L prefix f w2 = (Inl e, w3) \<longrightarrow>
      main_merge L prefix f w = (Uncaught e, w3)) \<and>
   (write_popscle_pileup_cel_full_filename L prefix f w = (Inr (Some df), w1) \<and>
    write_popscle_pileup_plp_full_filename L df prefix f w1 = (Inr b1, w2) \<and>
    write_popscle_pileup_umi_full_filename L prefix f w2 = (Inr b2, w3) \<and>
    write_popscle_pileup_var_full_filename L prefix f w3 = (Inl e, w4) \<longrightarrow>
      main_merge L prefix f w = (Uncaught e, w4)) \<and>
   (\<not> fst (check_outputs f w) \<longrightarrow> main L prefix f w = main_merge L prefix f w) \<and>
   exit_status (Exit 0) = 0 \<and> exit_status (Exit 1) = 1 \<and> exit_status (Uncaught e) = 1"
  by (simp add: main_merge_def main_def check_outputs_none)

theorem main_discards_booleans_witness:
  "\<exists>df w1 w2 w3 w4.
     write_popscle_pileup_cel_full_filename toy_lib ''s'' ''m'' plp_taken_world = (Inr (Some df), w1) \<and>
     write_popscle_pileup_plp_full_filename toy_lib df ''s'' ''m'' w1 = (Inr False, w2) \<and>
     write_popscle_pileup_umi_full_filename toy_lib ''s'' ''m'' w2 = (Inr True, w3) \<and>
     write_popscle_pileup_var_full_filename toy_lib ''s'' ''m'' w3 = (Inr False, w4) \<and>
     main_merge toy_lib ''s'' ''m'' plp_taken_world = (Exit 0, w4)"
proof -
  from plp_taken_merge obtain df w1 where
    cel: "write_popscle_pileup_cel_full_filename toy_lib ''s'' ''m'' plp_taken_world = (Inr (Some df), w1)"
    by blast
  from cel_merge_frame [OF cel] obtain b where
    m1: "map_of (files w1) = (map_of (files plp_taken_world))(cel_full_filename ''m'' \<mapsto> b)"
    by blast
  have "path_exists w1 (plp_full_filename ''m'')"
    by (simp add: path_exists_map_of m1 plp_taken_world_def plp_full_filename_def cel_full_filename_def)
  then have plp: "write_popscle_pileup_plp_full_filename toy_lib df ''s'' ''m'' w1 =
      (Inr False, eprint (msg_exists ''PLP'' (plp_full_filename ''m'')) w1)"
    by (rule plp_dest_exists)
  let ?w2 = "eprint (msg_exists ''PLP'' (plp_full_filename ''m'')) w1"
  have m2: "map_of (files ?w2) = (map_of (files plp_taken_world))(cel_full_filename ''m'' \<mapsto> b)"
    using m1 by simp
  have g2: "sorted_glob ?w2 ''s'' ''.pileup.umi.gz'' = []" "sorted_glob ?w2 ''s'' ''.pileup.var.gz'' = []"
    by (simp_all only: sorted_glob_map_upd [OF m2 other_kind_no_match(2)]
          sorted_glob_map_upd [OF m2 other_kind_no_match(3)] plp_taken_globs)
  have "\<not> path_exists ?w2 (umi_full_filename ''m'')"
    by (simp add: path_exists_map_of m1 plp_taken_world_def umi_full_filename_def cel_full_filename_def)
  from umi_no_shards [OF this m_no_match(2) g2(1), of toy_lib] obtain w3 where
    umi: "write_popscle_pileup_umi_full_filename toy_lib ''s'' ''m'' ?w2 = (Inr True, w3)"
    and m3: "map_of (files w3) = (map_of (files ?w2))(umi_full_filename ''m'' \<mapsto> gzip_compress toy_lib [])"
    by blast
  have g3: "sorted_glob w3 ''s'' ''.pileup.var.gz'' = []"
    by (simp only: sorted_glob_map_upd [OF m3 other_kind_no_match(6)] g2)
  have "\<not> path_exists w3 (var_full_filename ''m'')"
    by (simp add: path_exists_map_of m1 m3 plp_taken_world_def umi_full_filename_def
          cel_full_filename_def var_full_filename_def)
  then have var: "write_popscle_pileup_var_full_filename toy_lib ''s'' ''m'' w3 = (Inr False, w3)"
    using g3 by (rule var_no_shards)
  from main_discards_booleans [of toy_lib "''s''" "''m''" plp_taken_world df w1 False ?w2 True w3 False w3]
    cel plp umi var
  have "main_merge toy_lib ''s'' ''m'' plp_taken_world = (Exit 0, w3)"
    by simp
  with cel plp umi var show ?thesis by blast
qed

text \<open>
  C9 as stated fails when one of the three procedures raises: here the upfront check
  passes and the droplet merge returns a table, but a UMI shard has a line without a tab,
  and the process ends with the uncaught \<^verbatim>\<open>IndexError\<close>, status 1.
\<close>

theorem exception_after_droplet_merge:
  "\<not> fst (check_outputs ''m'' umi_tabless_world) \<and>
   (\<exists>df w1. write_popscle_pileup_cel_full_filename toy_lib ''s'' ''m'' umi_tabless_world =
              (Inr (Some df), w1)) \<and>
   fst (main toy_lib ''s'' ''m'' umi_tabless_world) = Uncaught (IndexError ''list index out of range'') \<and>
   exit_status (fst (main toy_lib ''s'' ''m'' umi_tabless_world)) = 1"
proof -
  let ?w = umi_tabless_world
  from umi_tabless_merge obtain df w1 where
    cel: "write_popscle_pileup_cel_full_filename toy_lib ''s'' ''m'' ?w = (Inr (Some df), w1)"
    by blast
  from cel_merge_frame [OF cel] obtain b where
    m1: "map_of (files w1) = (map_of (files ?w))(cel_full_filename ''m'' \<mapsto> b)"
    by blast
  have g1: "sorted_glob w1 ''s'' ''.pileup.plp.gz'' = []"
    "sorted_glob w1 ''s'' ''.pileup.umi.gz'' = [''s.0.pileup.umi.gz'']"
    by (simp_all only: sorted_glob_map_upd [OF m1 other_kind_no_match(1)]
          sorted_glob_map_upd [OF m1 other_kind_no_match(2)] umi_tabless_globs)
  have "\<not> path_exists w1 (plp_full_filename ''m'')"
    by (simp add: path_exists_map_of m1 umi_tabless_world_def plp_full_filename_def cel_full_filename_def)
  from plp_no_shards [OF this m_no_match(1) g1(1), of toy_lib df] obtain w2 where
    plp: "write_popscle_pileup_plp_full_filename toy_lib df ''s'' ''m'' w1 = (Inr True, w2)"
    and m2: "map_of (files w2) = (map_of (files w1))(plp_full_filename ''m'' \<mapsto> gzip_compress toy_lib [])"
    by blast
  have g2: "sorted_glob w2 ''s'' ''.pileup.umi.gz'' = [''s.0.pileup.umi.gz'']"
    by (simp only: sorted_glob_map_upd [OF m2 other_kind_no_match(4)] g1)
  have ne: "\<not> path_exists w2 (umi_full_filename ''m'')"
    by (simp add: path_exists_map_of m1 m2 umi_tabless_world_def umi_full_filename_def
          plp_full_filename_def cel_full_filename_def)
  have rd: "list_all2 (\<lambda>p lines. \<exists>b. read_file w2 p = Inr b \<and> gzip_text_lines toy_lib b = (lines, None))
              (sorted_glob w2 ''s'' ''.pileup.umi.gz'') [[''XYZ'' @ [nl]]]"
    unfolding g2
    by (simp add: read_file_map_of m1 m2 umi_tabless_world_def plp_full_filename_def
          cel_full_filename_def)
  from umi_merge_run [OF ne m_no_match(2) rd] obtain w3 where
    "write_popscle_pileup_umi_full_filename toy_lib ''s'' ''m'' w2 =
       ((case fst (umi_lines (concat [[''XYZ'' @ [nl]]]) 0 []) of None \<Rightarrow> Inr True | Some e \<Rightarrow> Inl e), w3)"
    by blast
  then have umi: "write_popscle_pileup_umi_full_filename toy_lib ''s'' ''m'' w2 =
       (Inl (IndexError ''list index out of range''), w3)"
    by (simp add: umi_lines_eq)
  have chk: "check_outputs ''m'' ?w = (False, ?w)"
    using umi_tabless_check by (rule check_outputs_none)
  have "main toy_lib ''s'' ''m'' ?w = (Uncaught (IndexError ''list index out of range''), w3)"
    using cel plp umi by (simp add: main_def chk main_merge_def)
  with umi_tabless_check cel show ?thesis
    by simp
qed



end
